theory Spec2Isabelle
  imports Main "HOL-Library.Word"
begin

unbundle bit_operations_syntax

section \<open>The ZeroMQ runner-worker interface of profit (\<^verbatim>\<open>profit/run/zeromq.py\<close>)\<close>

text \<open>
  The coordinator (\<^verbatim>\<open>ZeroMQRunnerInterface\<close>) owns one ROUTER socket and the per-run
  arrays \<^verbatim>\<open>input\<close>, \<^verbatim>\<open>output\<close> and \<^verbatim>\<open>internal\<close>; a worker
  (\<^verbatim>\<open>ZeroMQWorkerInterface\<close>) owns one REQ socket and talks to the coordinator with the
  Lazy Pirate request loop. Both are embedded with explicit state: every mutation of
  \<^verbatim>\<open>self\<close>, every socket operation and every log call is a field update of a record, and
  a raised exception is returned as a value next to the state reached when it was raised.
\<close>

subsection \<open>Python values\<close>

type_synonym bytes = string

datatype py_error =
  ValueError | IndexError | AssertionError | TypeError | ConnectionError

datatype level = Debug | Info | Warning | Error

text \<open>
  The outcome of a call: the exception that left the function (\<open>None\<close> for a normal
  return) and the state of \<^verbatim>\<open>self\<close> at that moment. Python keeps the mutations made
  before a \<^verbatim>\<open>raise\<close>, so the state is part of both outcomes.
\<close>

type_synonym 's outcome = "py_error option \<times> 's"

subsection \<open>\<^verbatim>\<open>int(address[4:])\<close> and \<^verbatim>\<open>f"req_{run_id}"\<close>\<close>

text \<open>
  \<^verbatim>\<open>int\<close> on a bytes object reads a base-10 literal: optional surrounding whitespace, an
  optional sign, then decimal digits in which single underscores may separate digits.
  Anything else raises \<^verbatim>\<open>ValueError\<close>, here \<open>None\<close>. (The interpreter's configurable
  limit on the number of digits is not part of the model.)
\<close>

definition is_space :: "char \<Rightarrow> bool" where
  "is_space c = (c \<in> {CHR '' '', CHR 0x09, CHR 0x0A, CHR 0x0B, CHR 0x0C, CHR 0x0D})"

definition is_digit :: "char \<Rightarrow> bool" where
  "is_digit c = (48 \<le> (of_char c :: nat) \<and> (of_char c :: nat) \<le> 57)"

definition digit_val :: "char \<Rightarrow> int" where
  "digit_val c = int (of_char c) - 48"

fun no_double_underscore :: "string \<Rightarrow> bool" where
  "no_double_underscore (a # b # cs) =
     (\<not> (a = CHR ''_'' \<and> b = CHR ''_'') \<and> no_double_underscore (b # cs))"
| "no_double_underscore _ = True"

definition digits_value :: "string \<Rightarrow> int" where
  "digits_value ds = foldl (\<lambda>a c. 10 * a + digit_val c) 0 (filter (\<lambda>c. c \<noteq> CHR ''_'') ds)"

definition py_int :: "bytes \<Rightarrow> int option" where
  "py_int s =
     (let s1 = dropWhile is_space s;
          neg = (s1 \<noteq> [] \<and> hd s1 = CHR ''-'');
          s2 = (if s1 \<noteq> [] \<and> (hd s1 = CHR ''-'' \<or> hd s1 = CHR ''+'') then tl s1 else s1);
          body = takeWhile (\<lambda>c. is_digit c \<or> c = CHR ''_'') s2;
          rest = dropWhile (\<lambda>c. is_digit c \<or> c = CHR ''_'') s2
      in if body = [] \<or> hd body = CHR ''_'' \<or> last body = CHR ''_''
            \<or> \<not> no_double_underscore body \<or> dropWhile is_space rest \<noteq> []
         then None
         else Some (if neg then - digits_value body else digits_value body))"

text \<open>\<^verbatim>\<open>str\<close> of an integer, as the f-string of \<^verbatim>\<open>connect\<close> formats the run id.\<close>

definition digit_char :: "nat \<Rightarrow> char" where
  "digit_char d = char_of (48 + d)"

function str_nat :: "nat \<Rightarrow> string" where
  "str_nat n = (if n < 10 then [digit_char n] else str_nat (n div 10) @ [digit_char (n mod 10)])"
  by pat_completeness auto
termination
  by (relation "measure id") auto

definition str_int :: "int \<Rightarrow> string" where
  "str_int i = (if i < 0 then CHR ''-'' # str_nat (nat (- i)) else str_nat (nat i))"

text \<open>Indexing a numpy array of length \<open>n\<close> with a Python integer: negative indices count
  from the end, and an index outside \<open>[-n, n)\<close> raises \<^verbatim>\<open>IndexError\<close>.\<close>

definition py_index :: "nat \<Rightarrow> int \<Rightarrow> nat option" where
  "py_index n i =
     (if 0 \<le> i \<and> i < int n then Some (nat i)
      else if - int n \<le> i \<and> i < 0 then Some (nat (int n + i))
      else None)"

subsection \<open>numpy and json\<close>

text \<open>
  The record layout and the schema text are numpy's and json's, not this repository's. The
  library calls the interface makes are parameters of the model: \<open>'dt\<close> is a dtype
  description (\<^verbatim>\<open>input_vars\<close>, \<^verbatim>\<open>output_vars\<close>), \<open>'r\<close> one structured record and
  \<open>'t\<close> one \<^verbatim>\<open>np.uint\<close>. A call that raises returns \<open>Inl\<close> of the exception.
  \<^item> \<open>json_dumps\<close>: \<^verbatim>\<open>json.dumps(vars).encode()\<close>;
  \<^item> \<open>loads_input_descr\<close>, \<open>loads_output_descr\<close>: \<^verbatim>\<open>json.loads(descr.decode())\<close>
    followed by the worker's conversion of each column to a tuple;
  \<^item> \<open>frombuffer\<close>: \<^verbatim>\<open>np.frombuffer(buf, dtype=vars)\<close>, the array of records in \<open>buf\<close>;
  \<^item> \<open>frombuffer_uint\<close>: \<^verbatim>\<open>np.frombuffer(buf, dtype=np.uint)\<close>;
  \<^item> \<open>zeros\<close>: \<^verbatim>\<open>np.zeros(1, dtype=vars)[0]\<close>;
  \<^item> \<open>tobytes\<close>: the buffer of a record, as \<^verbatim>\<open>send_multipart\<close> puts it on the wire;
  \<^item> \<open>uint_tobytes\<close>: the buffer of \<^verbatim>\<open>np.uint(self.time)\<close>.
\<close>

record ('dt, 'r, 't) numpy =
  json_dumps :: "'dt \<Rightarrow> bytes"
  loads_input_descr :: "bytes \<Rightarrow> py_error + 'dt"
  loads_output_descr :: "bytes \<Rightarrow> py_error + 'dt"
  frombuffer :: "'dt \<Rightarrow> bytes \<Rightarrow> py_error + 'r list"
  frombuffer_uint :: "bytes \<Rightarrow> py_error + 't list"
  zeros :: "'dt \<Rightarrow> py_error + 'r"
  tobytes :: "'r \<Rightarrow> bytes"
  uint_tobytes :: "'t \<Rightarrow> bytes"

subsection \<open>The coordinator: \<^verbatim>\<open>ZeroMQRunnerInterface\<close>\<close>

text \<open>
  One row of the structured array \<^verbatim>\<open>self.internal\<close>: the fields \<^verbatim>\<open>DONE\<close>,
  \<^verbatim>\<open>TIME\<close> and \<^verbatim>\<open>FLAGS\<close> (an \<^verbatim>\<open>np.byte\<close>, added by \<^verbatim>\<open>__init__\<close>).
\<close>

record 't internal_row =
  DONE :: bool
  TIME :: 't
  FLAGS :: "8 word"

text \<open>
  The state of the coordinator that \<^verbatim>\<open>handle_msg\<close> reads or writes. \<open>sent\<close> lists the
  multipart messages given to \<^verbatim>\<open>self.socket.send_multipart\<close>, oldest first; \<open>logged\<close>
  lists the levels of the log calls made (the message texts are not kept). The arrays
  \<^verbatim>\<open>self.input\<close> and \<^verbatim>\<open>self.output\<close> are the fields \<open>inputs\<close> and \<open>outputs\<close>.
\<close>

record ('dt, 'r, 't) runner =
  input_vars :: 'dt
  output_vars :: 'dt
  inputs :: "'r list"
  outputs :: "'r list"
  internal :: "'t internal_row list"
  sent :: "bytes list list"
  logged :: "level list"

definition log_msg :: "level \<Rightarrow> ('dt, 'r, 't) runner \<Rightarrow> ('dt, 'r, 't) runner" where
  "log_msg l r = r\<lparr>logged := logged r @ [l]\<rparr>"

definition send_multipart :: "bytes list \<Rightarrow> ('dt, 'r, 't) runner \<Rightarrow> ('dt, 'r, 't) runner" where
  "send_multipart m r = r\<lparr>sent := sent r @ [m]\<rparr>"

text \<open>\<^verbatim>\<open>self.internal["FLAGS"][run_id] |= b\<close>\<close>

definition or_flag :: "int \<Rightarrow> 8 word \<Rightarrow> ('dt, 'r, 't) runner \<Rightarrow> ('dt, 'r, 't) runner outcome" where
  "or_flag run_id b r =
     (case py_index (length (internal r)) run_id of
        None \<Rightarrow> (Some IndexError, r)
      | Some i \<Rightarrow>
          (None, r\<lparr>internal := (internal r)[i := (internal r ! i)\<lparr>FLAGS := FLAGS (internal r ! i) OR b\<rparr>]\<rparr>))"

text \<open>
  \<^verbatim>\<open>handle_msg(self, address, msg)\<close>. Assigning the array that \<^verbatim>\<open>np.frombuffer\<close>
  returns to one element of \<^verbatim>\<open>self.output\<close> or of \<^verbatim>\<open>self.internal["TIME"]\<close> needs an
  array of exactly one element; any other array raises.
\<close>

definition handle_msg ::
  "('dt, 'r, 't) numpy \<Rightarrow> ('dt, 'r, 't) runner \<Rightarrow> bytes \<Rightarrow> bytes list \<Rightarrow> ('dt, 'r, 't) runner outcome"
where
  "handle_msg L r0 address msg =
     (if take 4 address = ''req_'' then
        (case py_int (drop 4 address) of
           None \<Rightarrow> (Some ValueError, r0)
         | Some run_id \<Rightarrow>
            (case msg of
               [] \<Rightarrow> (Some IndexError, r0)
             | verb # payload \<Rightarrow>
                (let r = log_msg Debug r0 in
                 if verb = ''READY'' then
                   (case py_index (length (inputs r)) run_id of
                      None \<Rightarrow> (Some IndexError, r)
                    | Some i \<Rightarrow>
                        or_flag run_id 2
                          (send_multipart
                             [address, [], json_dumps L (input_vars r), tobytes L (inputs r ! i),
                              json_dumps L (output_vars r)]
                             (log_msg Debug r)))
                 else if verb = ''DATA'' then
                   (case payload of
                      [] \<Rightarrow> (Some IndexError, r)
                    | buf # _ \<Rightarrow>
                       (case frombuffer L (output_vars r) buf of
                          Inl e \<Rightarrow> (Some e, r)
                        | Inr recs \<Rightarrow>
                           (case py_index (length (outputs r)) run_id of
                              None \<Rightarrow> (Some IndexError, r)
                            | Some i \<Rightarrow>
                               (case recs of
                                  [v] \<Rightarrow>
                                    (let r1 = log_msg Debug (r\<lparr>outputs := (outputs r)[i := v]\<rparr>) in
                                     case py_index (length (internal r1)) run_id of
                                       None \<Rightarrow> (Some IndexError, r1)
                                     | Some j \<Rightarrow>
                                         (None,
                                          send_multipart [address, [], ''ACK'']
                                            (log_msg Debug
                                               (r1\<lparr>internal := (internal r1)
                                                   [j := (internal r1 ! j)
                                                      \<lparr>DONE := True,
                                                       FLAGS := FLAGS (internal r1 ! j) OR 8\<rparr>]\<rparr>))))
                                | _ \<Rightarrow> (Some ValueError, r)))))
                 else if verb = ''TIME'' then
                   (case payload of
                      [] \<Rightarrow> (Some IndexError, r)
                    | buf # _ \<Rightarrow>
                       (case frombuffer_uint L buf of
                          Inl e \<Rightarrow> (Some e, r)
                        | Inr ts \<Rightarrow>
                           (case py_index (length (internal r)) run_id of
                              None \<Rightarrow> (Some IndexError, r)
                            | Some i \<Rightarrow>
                               (case ts of
                                  [t] \<Rightarrow>
                                    (None,
                                     send_multipart [address, [], ''ACK'']
                                       (log_msg Debug
                                          (r\<lparr>internal := (internal r)
                                              [i := (internal r ! i)\<lparr>TIME := t\<rparr>]\<rparr>)))
                                | _ \<Rightarrow> (Some ValueError, r)))))
                 else if verb = ''DIE'' then
                   (case or_flag run_id 4 r of
                      (Some e, r1) \<Rightarrow> (Some e, r1)
                    | (None, r1) \<Rightarrow> (None, send_multipart [address, [], ''ACK''] (log_msg Debug r1)))
                 else (None, log_msg Warning r))))
      else (None, log_msg Warning r0))"

text \<open>
  \<^verbatim>\<open>poll\<close>: the loop takes the messages that are ready, in order, and hands each to
  \<^verbatim>\<open>handle_msg(msg[0], msg[2:])\<close>; \<open>queue\<close> is what \<^verbatim>\<open>recv_multipart\<close> returns until
  the socket has nothing left. An exception of \<^verbatim>\<open>handle_msg\<close> ends the loop.
\<close>

fun poll_loop ::
  "('dt, 'r, 't) numpy \<Rightarrow> ('dt, 'r, 't) runner \<Rightarrow> bytes list list \<Rightarrow> ('dt, 'r, 't) runner outcome"
where
  "poll_loop L r [] = (None, r)"
| "poll_loop L r (m # queue) =
     (case m of
        [] \<Rightarrow> (Some IndexError, r)
      | address # _ \<Rightarrow>
         (case handle_msg L r address (drop 2 m) of
            (Some e, r1) \<Rightarrow> (Some e, r1)
          | (None, r1) \<Rightarrow> poll_loop L r1 queue))"

definition poll ::
  "('dt, 'r, 't) numpy \<Rightarrow> ('dt, 'r, 't) runner \<Rightarrow> bytes list list \<Rightarrow> ('dt, 'r, 't) runner outcome"
where
  "poll L r queue = poll_loop L (log_msg Debug r) queue"

text \<open>
  The arrays of a campaign all have one entry per run: \<^verbatim>\<open>size\<close> is their common length.
\<close>

definition table_size :: "('dt, 'r, 't) runner \<Rightarrow> nat \<Rightarrow> bool" where
  "table_size r n = (length (inputs r) = n \<and> length (outputs r) = n \<and> length (internal r) = n)"

subsection \<open>The worker: \<^verbatim>\<open>ZeroMQWorkerInterface\<close>\<close>

text \<open>
  What the worker does to its socket and to the clock, in order: \<^verbatim>\<open>connect\<close> (with the
  identity it sets), \<^verbatim>\<open>socket.close\<close>, \<^verbatim>\<open>send_multipart\<close> and \<^verbatim>\<open>sleep\<close>.
\<close>

datatype event = Connect bytes | Disconnect | Send "bytes list" | Sleep

text \<open>
  What one \<^verbatim>\<open>self.socket.poll\<close> of the request loop finds: nothing within the timeout, or a
  message, whose frames \<^verbatim>\<open>recv_multipart\<close> then returns.
\<close>

datatype reply = Timeout | Reply "bytes list"

text \<open>
  The worker's state: \<open>connected\<close> is \<^verbatim>\<open>self._connected\<close>; \<open>input_w\<close>, \<open>output_w\<close>
  and \<open>time_w\<close> are \<^verbatim>\<open>self.input\<close>, \<^verbatim>\<open>self.output\<close> and \<^verbatim>\<open>self.time\<close>; \<open>wire\<close>
  lists the socket operations and sleeps made, \<open>wlogged\<close> the levels of the log calls.
\<close>

record ('r, 't) worker =
  run_id :: int
  retries :: int
  connected :: bool
  input_w :: 'r
  output_w :: 'r
  time_w :: 't
  wire :: "event list"
  wlogged :: "level list"

definition wlog :: "level \<Rightarrow> ('r, 't) worker \<Rightarrow> ('r, 't) worker" where
  "wlog l w = w\<lparr>wlogged := wlogged w @ [l]\<rparr>"

definition emit :: "event \<Rightarrow> ('r, 't) worker \<Rightarrow> ('r, 't) worker" where
  "emit e w = w\<lparr>wire := wire w @ [e]\<rparr>"

definition connect :: "('r, 't) worker \<Rightarrow> ('r, 't) worker" where
  "connect w = (wlog Info (emit (Connect (''req_'' @ str_int (run_id w))) w))\<lparr>connected := True\<rparr>"

definition disconnect :: "('r, 't) worker \<Rightarrow> ('r, 't) worker" where
  "disconnect w = (emit Disconnect w)\<lparr>connected := False\<rparr>"

text \<open>The message of a request: the verb, then the payload of \<^verbatim>\<open>DATA\<close> or \<^verbatim>\<open>TIME\<close>.\<close>

definition request_msg :: "('dt, 'r, 't) numpy \<Rightarrow> ('r, 't) worker \<Rightarrow> string \<Rightarrow> bytes list" where
  "request_msg L w req =
     (if req = ''DATA'' then [req, tobytes L (output_w w)]
      else if req = ''TIME'' then [req, uint_tobytes L (time_w w)]
      else [req])"

text \<open>
  One pass through the body of \<^verbatim>\<open>while True\<close> ends the call (\<open>Done\<close>, by
  \<^verbatim>\<open>return\<close> or by an exception) or goes round again with the new value of \<^verbatim>\<open>tries\<close>.
\<close>

datatype 's step = Done "'s outcome" | Again int 's

text \<open>The end of the loop body: abandon when the retry budget is used up, else reconnect.\<close>

definition abandon_or_reconnect :: "int \<Rightarrow> ('r, 't) worker \<Rightarrow> ('r, 't) worker step" where
  "abandon_or_reconnect tries w =
     (if tries \<ge> retries w + 1 then Done (Some ConnectionError, disconnect (wlog Error w))
      else Again tries (connect (disconnect w)))"

text \<open>The handler of \<^verbatim>\<open>except (ValueError, AssertionError)\<close>, then the end of the body.\<close>

definition malformed_reply :: "int \<Rightarrow> ('r, 't) worker \<Rightarrow> ('r, 't) worker step" where
  "malformed_reply tries w = abandon_or_reconnect tries (wlog Error (wlog Debug w))"

text \<open>An exception raised inside the \<^verbatim>\<open>try\<close>: caught if the handler names its class.\<close>

definition raised :: "py_error \<Rightarrow> int \<Rightarrow> ('r, 't) worker \<Rightarrow> ('r, 't) worker step" where
  "raised e tries w =
     (if e = ValueError \<or> e = AssertionError then malformed_reply tries w else Done (Some e, w))"

definition attempt ::
  "('dt, 'r, 't) numpy \<Rightarrow> string \<Rightarrow> reply \<Rightarrow> int \<Rightarrow> ('r, 't) worker \<Rightarrow> ('r, 't) worker step"
where
  "attempt L req p tries w0 =
     (let w = wlog Debug (emit (Send (request_msg L w0 req)) w0) in
      case p of
        Reply response \<Rightarrow>
          (if req = ''READY'' then
             (case response of
                [input_descr, input_data, output_descr] \<Rightarrow>
                  (case loads_input_descr L input_descr of
                     Inl e \<Rightarrow> raised e tries w
                   | Inr idt \<Rightarrow>
                      (case loads_output_descr L output_descr of
                         Inl e \<Rightarrow> raised e tries w
                       | Inr odt \<Rightarrow>
                          (case frombuffer L idt input_data of
                             Inl e \<Rightarrow> raised e tries w
                           | Inr [] \<Rightarrow> raised IndexError tries w
                           | Inr (v # _) \<Rightarrow>
                              (case zeros L odt of
                                 Inl e \<Rightarrow> raised e tries (w\<lparr>input_w := v\<rparr>)
                               | Inr z \<Rightarrow>
                                   Done (None, wlog Debug (wlog Info (w\<lparr>input_w := v, output_w := z\<rparr>)))))))
              | _ \<Rightarrow> raised ValueError tries w)
           else
             (case response of
                [] \<Rightarrow> raised IndexError tries w
              | frame # _ \<Rightarrow>
                  if frame = ''ACK'' then Done (None, wlog Debug w)
                  else raised AssertionError tries w))
      | Timeout \<Rightarrow> abandon_or_reconnect (tries + 1) (emit Sleep (wlog Warning w)))"

text \<open>
  The loop of \<^verbatim>\<open>request\<close>. \<open>resp n\<close> is what the poll of attempt number \<open>n\<close> finds
  (counted from 0 within the call). The loop need not end: \<open>None\<close> is a call that never
  returns.
\<close>

partial_function (option) request_loop ::
  "('dt, 'r, 't) numpy \<Rightarrow> string \<Rightarrow> (nat \<Rightarrow> reply) \<Rightarrow> nat \<Rightarrow> int \<Rightarrow> ('r, 't) worker
     \<Rightarrow> ('r, 't) worker outcome option"
where
  "request_loop L req resp n tries w =
     (case attempt L req (resp n) tries w of
        Done out \<Rightarrow> Some out
      | Again tries' w' \<Rightarrow> request_loop L req resp (Suc n) tries' w')"

declare request_loop.simps [code]

definition request ::
  "('dt, 'r, 't) numpy \<Rightarrow> ('r, 't) worker \<Rightarrow> string \<Rightarrow> (nat \<Rightarrow> reply)
     \<Rightarrow> ('r, 't) worker outcome option"
where
  "request L w0 req resp =
     (let w = (if \<not> connected w0 then connect (wlog Info w0) else w0) in
      if req \<notin> set [''READY'', ''DATA'', ''TIME''] then Some (Some ValueError, w)
      else request_loop L req resp 0 0 w)"

text \<open>
  The first \<open>k\<close> passes of the loop: the outcome if the call has ended by then, else the
  value of \<^verbatim>\<open>tries\<close> and the state with which pass \<open>k\<close> starts.
\<close>

fun request_passes ::
  "nat \<Rightarrow> ('dt, 'r, 't) numpy \<Rightarrow> string \<Rightarrow> (nat \<Rightarrow> reply) \<Rightarrow> nat \<Rightarrow> int \<Rightarrow> ('r, 't) worker
     \<Rightarrow> ('r, 't) worker step"
where
  "request_passes 0 L req resp n tries w = Again tries w"
| "request_passes (Suc k) L req resp n tries w =
     (case attempt L req (resp n) tries w of
        Done out \<Rightarrow> Done out
      | Again tries' w' \<Rightarrow> request_passes k L req resp (Suc n) tries' w')"


text \<open>
  Modelled from the spec: the table as the campaign allocates it. The constructor of the
  base class \<^verbatim>\<open>RunnerInterface\<close> (\<^verbatim>\<open>interface.py\<close>) is not part of these sources.
  The spec's data model gives a run, once its input is sampled, an output that is zero until
  reported, an elapsed time that is zero until reported, a status with no bit set and
  \<open>done\<close> false; \<open>zero_rec\<close> and \<open>zero_t\<close> are those zeros.
\<close>

definition allocate :: "'dt \<Rightarrow> 'dt \<Rightarrow> 'r list \<Rightarrow> 'r \<Rightarrow> 't \<Rightarrow> ('dt, 'r, 't) runner" where
  "allocate ivars ovars ins zero_rec zero_t =
     \<lparr>input_vars = ivars, output_vars = ovars, inputs = ins,
      outputs = replicate (length ins) zero_rec,
      internal = replicate (length ins) \<lparr>DONE = False, TIME = zero_t, FLAGS = 0\<rparr>,
      sent = [], logged = []\<rparr>"

text \<open>The status bits of \<^verbatim>\<open>FLAGS\<close>: \<open>0x02\<close> assigned, \<open>0x04\<close> terminated, \<open>0x08\<close> completed.\<close>

definition completed :: "'t internal_row \<Rightarrow> bool" where
  "completed row = (FLAGS row AND 8 \<noteq> 0)"

definition assigned :: "'t internal_row \<Rightarrow> bool" where
  "assigned row = (FLAGS row AND 2 \<noteq> 0)"

definition flags_consistent :: "('dt, 'r, 't) runner \<Rightarrow> bool" where
  "flags_consistent r = list_all (\<lambda>row. completed row = DONE row) (internal r)"

text \<open>
  A reply that the \<^verbatim>\<open>try\<close> block of \<^verbatim>\<open>request\<close> accepts: for \<^verbatim>\<open>READY\<close> three
  frames whose schemas and input record decode, for the other verbs a first frame
  \<^verbatim>\<open>ACK\<close>.
\<close>

definition well_formed :: "('dt, 'r, 't) numpy \<Rightarrow> string \<Rightarrow> bytes list \<Rightarrow> bool" where
  "well_formed L req response =
     (if req = ''READY'' then
        (case response of
           [input_descr, input_data, output_descr] \<Rightarrow>
             (case (loads_input_descr L input_descr, loads_output_descr L output_descr) of
                (Inr idt, Inr odt) \<Rightarrow>
                  (case (frombuffer L idt input_data, zeros L odt) of
                     (Inr (v # _), Inr z) \<Rightarrow> True
                   | _ \<Rightarrow> False)
              | _ \<Rightarrow> False)
         | _ \<Rightarrow> False)
      else (case response of [] \<Rightarrow> False | frame # _ \<Rightarrow> frame = ''ACK''))"

subsection \<open>The record codec\<close>

text \<open>
  Modelled from the spec: the record codec of the spec's WireCodec (section 4.1). In the
  source the packing of a record is numpy's (\<^verbatim>\<open>np.frombuffer\<close> and the buffer of a
  structured array element), which is not part of these sources. A schema is an ordered
  list of fields, each a name, a type name and an optional shape; a record holds, for each
  field in order, the elements of that field. The layout is derived from the fields alone:
  a field takes its number of elements times the size of its type, with no length prefix,
  and an element is written as the bytes of its unsigned value, lowest byte first. The table
  of the supported types with their sizes in bytes is the parameter \<open>size_of\<close>. Decoding
  a buffer whose length is not that of the layout fails with \<open>MalformedPayload\<close>.
\<close>

datatype codec_error = MalformedPayload

type_synonym schema_field = "string \<times> string \<times> nat list option"

type_synonym schema = "schema_field list"

type_synonym record_value = "nat list list"

text \<open>Modelled from the spec: the number of elements of a field; a field without a shape
  has one.\<close>

definition elems_of :: "nat list option \<Rightarrow> nat" where
  "elems_of shape = (case shape of None \<Rightarrow> 1 | Some dims \<Rightarrow> prod_list dims)"

text \<open>Modelled from the spec: one element of \<open>w\<close> bytes, packed and unpacked.\<close>

fun le_bytes :: "nat \<Rightarrow> nat \<Rightarrow> bytes" where
  "le_bytes 0 v = []"
| "le_bytes (Suc w) v = char_of (v mod 256) # le_bytes w (v div 256)"

fun le_nat :: "bytes \<Rightarrow> nat" where
  "le_nat [] = 0"
| "le_nat (b # bs) = of_char b + 256 * le_nat bs"

text \<open>Modelled from the spec: \<^verbatim>\<open>encode_record(record, fields) -> bytes\<close>.\<close>

definition encode_field :: "(string \<Rightarrow> nat) \<Rightarrow> schema_field \<Rightarrow> nat list \<Rightarrow> bytes" where
  "encode_field size_of f vals = (case f of (name, ty, shape) \<Rightarrow> concat (map (le_bytes (size_of ty)) vals))"

fun encode_record :: "(string \<Rightarrow> nat) \<Rightarrow> schema \<Rightarrow> record_value \<Rightarrow> bytes" where
  "encode_record size_of (f # fs) (vals # rcd) = encode_field size_of f vals @ encode_record size_of fs rcd"
| "encode_record size_of _ _ = []"

text \<open>Modelled from the spec: \<^verbatim>\<open>decode_record(bytes, fields) -> record\<close>.\<close>

fun decode_elems :: "nat \<Rightarrow> nat \<Rightarrow> bytes \<Rightarrow> nat list" where
  "decode_elems 0 w buf = []"
| "decode_elems (Suc k) w buf = le_nat (take w buf) # decode_elems k w (drop w buf)"

definition field_bytes :: "(string \<Rightarrow> nat) \<Rightarrow> schema_field \<Rightarrow> nat" where
  "field_bytes size_of f = (case f of (name, ty, shape) \<Rightarrow> elems_of shape * size_of ty)"

fun decode_record :: "(string \<Rightarrow> nat) \<Rightarrow> schema \<Rightarrow> bytes \<Rightarrow> codec_error + record_value" where
  "decode_record size_of [] buf = (if buf = [] then Inr [] else Inl MalformedPayload)"
| "decode_record size_of (f # fs) buf =
     (if length buf < field_bytes size_of f then Inl MalformedPayload
      else (case decode_record size_of fs (drop (field_bytes size_of f) buf) of
              Inl e \<Rightarrow> Inl e
            | Inr rcd \<Rightarrow>
                Inr ((case f of (name, ty, shape) \<Rightarrow>
                        decode_elems (elems_of shape) (size_of ty) (take (field_bytes size_of f) buf))
                     # rcd)))"

text \<open>Modelled from the spec: a record conforms to a schema when it has, for each field in
  order, as many elements as the shape says, each within the range of the field's type.\<close>

definition conforms :: "(string \<Rightarrow> nat) \<Rightarrow> schema \<Rightarrow> record_value \<Rightarrow> bool" where
  "conforms size_of fs rcd =
     list_all2 (\<lambda>f vals. case f of (name, ty, shape) \<Rightarrow>
                  length vals = elems_of shape \<and> list_all (\<lambda>v. v < 256 ^ size_of ty) vals)
       fs rcd"

subsection \<open>A small campaign, for the examples\<close>

text \<open>
  A library instance in which a dtype is its own description, a record is two bytes and a
  time is one byte, and a campaign of three runs.
\<close>

definition demo_numpy :: "(string, bytes, nat) numpy" where
  "demo_numpy =
     \<lparr>json_dumps = (\<lambda>dt. dt), loads_input_descr = Inr, loads_output_descr = Inr,
      frombuffer = (\<lambda>dt buf. if length buf = 2 then Inr [buf] else Inl ValueError),
      frombuffer_uint = (\<lambda>buf. if length buf = 1 then Inr [of_char (hd buf)] else Inl ValueError),
      zeros = (\<lambda>dt. Inr ''00''), tobytes = (\<lambda>r. r), uint_tobytes = (\<lambda>t. [char_of t])\<rparr>"

definition demo_runner :: "(string, bytes, nat) runner" where
  "demo_runner = allocate ''[[x]]'' ''[[y]]'' [''aa'', ''bb'', ''cc''] ''00'' 0"

definition demo_worker :: "(bytes, nat) worker" where
  "demo_worker =
     \<lparr>run_id = 1, retries = 2, connected = True, input_w = ''00'', output_w = ''zz'',
      time_w = 7, wire = [], wlogged = []\<rparr>"

text \<open>Two responders: one that never answers, and one that answers every request with \<^verbatim>\<open>NAK\<close>.\<close>

definition silent :: "nat \<Rightarrow> reply" where
  "silent n = Timeout"

definition nak :: "nat \<Rightarrow> reply" where
  "nak n = Reply [''NAK'']"

text \<open>A responder that answers the third attempt of a \<^verbatim>\<open>TIME\<close> or \<^verbatim>\<open>DATA\<close> request.\<close>

definition late_ack :: "nat \<Rightarrow> reply" where
  "late_ack n = (if n < 2 then Timeout else Reply [''ACK''])"

text \<open>A table of type sizes and a schema with a shaped and an unshaped field.\<close>

definition demo_sizes :: "string \<Rightarrow> nat" where
  "demo_sizes ty = (if ty = ''uint16'' then 2 else if ty = ''float64'' then 8 else 1)"

definition demo_schema :: schema where
  "demo_schema = [(''x'', ''uint16'', Some [2]), (''b'', ''uint8'', None)]"

section \<open>Properties\<close>

subsection \<open>Run ids in addresses\<close>

declare str_nat.simps [simp del]

lemma is_digit_digit_char: "d < 10 \<Longrightarrow> is_digit (digit_char d)"
  by (simp add: is_digit_def digit_char_def)

lemma digit_val_digit_char: "d < 10 \<Longrightarrow> digit_val (digit_char d) = int d"
  by (simp add: digit_val_def digit_char_def)

lemma digit_not_underscore: "is_digit c \<Longrightarrow> c \<noteq> CHR ''_''"
  by (auto simp: is_digit_def)

lemma digit_not_space: "is_digit c \<Longrightarrow> \<not> is_space c"
  by (auto simp: is_digit_def is_space_def)

lemma digit_not_sign: "is_digit c \<Longrightarrow> c \<noteq> CHR ''-'' \<and> c \<noteq> CHR ''+''"
  by (auto simp: is_digit_def)

lemma str_nat_digits: "\<forall>c \<in> set (str_nat n). is_digit c"
  by (induction n rule: str_nat.induct) (subst str_nat.simps, auto simp: is_digit_digit_char)

lemma str_nat_nonempty: "str_nat n \<noteq> []"
  by (subst str_nat.simps) simp

lemma no_double_underscore_digits: "\<forall>c \<in> set s. is_digit c \<Longrightarrow> no_double_underscore s"
  by (induction s rule: no_double_underscore.induct) (auto dest: digit_not_underscore)

lemma digits_value_str_nat: "digits_value (str_nat n) = int n"
proof (induction n rule: str_nat.induct)
  case (1 n)
  show ?case
  proof (cases "n < 10")
    case True
    then show ?thesis
      by (subst str_nat.simps)
         (simp add: digits_value_def digit_val_digit_char digit_not_underscore is_digit_digit_char)
  next
    case False
    have nd: "digit_char (n mod 10) \<noteq> CHR ''_''"
      by (rule digit_not_underscore) (simp add: is_digit_digit_char)
    from False 1 have ih: "digits_value (str_nat (n div 10)) = int (n div 10)" by simp
    from False have "digits_value (str_nat n)
        = 10 * digits_value (str_nat (n div 10)) + digit_val (digit_char (n mod 10))"
      by (subst str_nat.simps) (simp add: digits_value_def nd)
    moreover have "10 * int (n div 10) + int (n mod 10) = int n" by presburger
    ultimately show ?thesis using ih by (simp add: digit_val_digit_char)
  qed
qed

lemma py_int_digits:
  assumes "s \<noteq> []" "\<forall>c \<in> set s. is_digit c"
  shows "py_int s = Some (digits_value s)"
proof -
  have h: "is_digit (hd s)" and l: "is_digit (last s)"
    using assms by simp_all
  have tw: "takeWhile (\<lambda>c. is_digit c \<or> c = CHR ''_'') s = s"
    using assms by (simp add: takeWhile_eq_all_conv)
  have dw: "dropWhile (\<lambda>c. is_digit c \<or> c = CHR ''_'') s = []"
    using assms by simp
  have sp: "dropWhile is_space s = s"
    using h assms(1) by (cases s) (simp_all add: digit_not_space)
  have sg: "hd s \<noteq> CHR ''-''" "hd s \<noteq> CHR ''+''" "hd s \<noteq> CHR ''_''" "last s \<noteq> CHR ''_''"
    using digit_not_sign[OF h] digit_not_underscore[OF h] digit_not_underscore[OF l] by simp_all
  show ?thesis
    by (simp add: py_int_def Let_def sp sg tw dw assms(1) no_double_underscore_digits[OF assms(2)])
qed

lemma py_int_str_nat: "py_int (str_nat n) = Some (int n)"
  by (simp add: py_int_digits str_nat_nonempty str_nat_digits digits_value_str_nat)

lemma py_int_minus_str_nat: "py_int (CHR ''-'' # str_nat n) = Some (- int n)"
proof -
  let ?s = "str_nat n"
  have ne: "?s \<noteq> []" by (rule str_nat_nonempty)
  have all: "\<forall>c \<in> set ?s. is_digit c" by (rule str_nat_digits)
  have h: "is_digit (hd ?s)" and l: "is_digit (last ?s)"
    using ne all by simp_all
  have tw: "takeWhile (\<lambda>c. is_digit c \<or> c = CHR ''_'') ?s = ?s"
    using all by (simp add: takeWhile_eq_all_conv)
  have dw: "dropWhile (\<lambda>c. is_digit c \<or> c = CHR ''_'') ?s = []"
    using all by simp
  have sg: "hd ?s \<noteq> CHR ''_''" "last ?s \<noteq> CHR ''_''"
    using digit_not_underscore[OF h] digit_not_underscore[OF l] by simp_all
  have sp: "\<not> is_space CHR ''-''" by (simp add: is_space_def)
  show ?thesis
    by (simp add: py_int_def Let_def sp sg tw dw ne no_double_underscore_digits[OF all]
        digits_value_str_nat)
qed

lemma py_int_str_int: "py_int (str_int i) = Some i"
  by (simp add: str_int_def py_int_str_nat py_int_minus_str_nat)


subsection \<open>Status bits\<close>

lemma bit_int_8: "bit (8 :: int) n = (n = 3)"
proof -
  have "(8 :: int) = 2 ^ 3" by simp
  then show ?thesis by (simp only: bit_exp_iff) auto
qed

lemma bit_int_4: "bit (4 :: int) n = (n = 2)"
proof -
  have "(4 :: int) = 2 ^ 2" by simp
  then show ?thesis by (simp only: bit_exp_iff) auto
qed

lemma bit_int_2: "bit (2 :: int) n = (n = 1)"
  by (simp add: bit_2_iff)

lemma completed_or2: "(x OR 2) AND 8 = x AND (8 :: 8 word)"
  by (rule bit_eqI) (auto simp add: bit_and_iff bit_or_iff bit_int_2 bit_int_8)

lemma completed_or4: "(x OR 4) AND 8 = x AND (8 :: 8 word)"
  by (rule bit_eqI) (auto simp add: bit_and_iff bit_or_iff bit_int_4 bit_int_8)

lemma completed_or8: "(x OR 8) AND 8 \<noteq> (0 :: 8 word)"
proof -
  have "bit ((x OR 8) AND 8) 3" by (simp add: bit_and_iff bit_or_iff bit_int_8)
  then show ?thesis by auto
qed

lemma assigned_or2: "(x OR 2) AND 2 \<noteq> (0 :: 8 word)"
proof -
  have "bit ((x OR 2) AND 2) 1" by (simp add: bit_and_iff bit_or_iff bit_int_2)
  then show ?thesis by auto
qed

subsection \<open>What \<^verbatim>\<open>handle_msg\<close> does, verb by verb\<close>

lemma py_index_less: "py_index n k = Some i \<Longrightarrow> i < n"
  by (auto simp: py_index_def split: if_splits)

lemma py_index_negative: "1 \<le> k \<Longrightarrow> k \<le> n \<Longrightarrow> py_index n (- int k) = Some (n - k)"
  by (auto simp: py_index_def)

lemma py_index_outside: "int n \<le> k \<or> k < - int n \<Longrightarrow> py_index n k = None"
  by (auto simp: py_index_def)

lemma handle_READY:
  assumes "take 4 address = ''req_''" "py_int (drop 4 address) = Some k"
    and "table_size r n" "py_index n k = Some i"
  shows "handle_msg L r address (''READY'' # rest) =
     (None, r\<lparr>internal := (internal r)[i := (internal r ! i)\<lparr>FLAGS := FLAGS (internal r ! i) OR 2\<rparr>],
               sent := sent r @ [[address, [], json_dumps L (input_vars r),
                                  tobytes L (inputs r ! i), json_dumps L (output_vars r)]],
               logged := logged r @ [Debug, Debug]\<rparr>)"
  using assms
  by (simp add: handle_msg_def table_size_def Let_def or_flag_def send_multipart_def log_msg_def)

lemma handle_DATA:
  assumes "take 4 address = ''req_''" "py_int (drop 4 address) = Some k"
    and "table_size r n" "py_index n k = Some i"
    and "frombuffer L (output_vars r) buf = Inr [v]"
  shows "handle_msg L r address (''DATA'' # buf # rest) =
     (None, r\<lparr>outputs := (outputs r)[i := v],
               internal := (internal r)[i := (internal r ! i)\<lparr>DONE := True, FLAGS := FLAGS (internal r ! i) OR 8\<rparr>],
               sent := sent r @ [[address, [], ''ACK'']],
               logged := logged r @ [Debug, Debug, Debug]\<rparr>)"
  using assms
  by (simp add: handle_msg_def table_size_def Let_def send_multipart_def log_msg_def)

lemma handle_TIME:
  assumes "take 4 address = ''req_''" "py_int (drop 4 address) = Some k"
    and "table_size r n" "py_index n k = Some i"
    and "frombuffer_uint L buf = Inr [t]"
  shows "handle_msg L r address (''TIME'' # buf # rest) =
     (None, r\<lparr>internal := (internal r)[i := (internal r ! i)\<lparr>TIME := t\<rparr>],
               sent := sent r @ [[address, [], ''ACK'']],
               logged := logged r @ [Debug, Debug]\<rparr>)"
  using assms
  by (simp add: handle_msg_def table_size_def Let_def send_multipart_def log_msg_def)

lemma handle_DIE:
  assumes "take 4 address = ''req_''" "py_int (drop 4 address) = Some k"
    and "table_size r n" "py_index n k = Some i"
  shows "handle_msg L r address (''DIE'' # rest) =
     (None, r\<lparr>internal := (internal r)[i := (internal r ! i)\<lparr>FLAGS := FLAGS (internal r ! i) OR 4\<rparr>],
               sent := sent r @ [[address, [], ''ACK'']],
               logged := logged r @ [Debug, Debug]\<rparr>)"
  using assms
  by (simp add: handle_msg_def table_size_def Let_def or_flag_def send_multipart_def log_msg_def)

lemma handle_unknown_client:
  "take 4 address \<noteq> ''req_'' \<Longrightarrow> handle_msg L r address msg = (None, log_msg Warning r)"
  by (simp add: handle_msg_def)

lemma handle_not_int:
  "take 4 address = ''req_'' \<Longrightarrow> py_int (drop 4 address) = None
     \<Longrightarrow> handle_msg L r address msg = (Some ValueError, r)"
  by (simp add: handle_msg_def)


lemma list_all_update: "list_all P xs \<Longrightarrow> P y \<Longrightarrow> list_all P (xs[i := y])"
  by (induction xs arbitrary: i) (auto split: nat.splits)

lemma list_all_nth: "list_all P xs \<Longrightarrow> i < length xs \<Longrightarrow> P (xs ! i)"
  by (simp add: list_all_length)

lemma consistent_log [simp]: "flags_consistent (log_msg l r) = flags_consistent r"
  by (simp add: flags_consistent_def log_msg_def)

lemma consistent_send [simp]: "flags_consistent (send_multipart m r) = flags_consistent r"
  by (simp add: flags_consistent_def send_multipart_def)

lemma consistent_outputs [simp]: "flags_consistent (r\<lparr>outputs := x\<rparr>) = flags_consistent r"
  by (simp add: flags_consistent_def)

lemma consistent_update:
  assumes "flags_consistent r" "py_index (length (internal r)) k = Some i"
    and "completed row = DONE row"
  shows "flags_consistent (r\<lparr>internal := (internal r)[i := row]\<rparr>)"
  using assms by (simp add: flags_consistent_def list_all_update)

lemma consistent_row:
  "flags_consistent r \<Longrightarrow> py_index (length (internal r)) k = Some i
     \<Longrightarrow> completed (internal r ! i) = DONE (internal r ! i)"
  unfolding flags_consistent_def by (rule list_all_nth) (auto dest: py_index_less)

lemma or_flag_consistent:
  assumes "flags_consistent r" "b = 2 \<or> b = 4"
  shows "flags_consistent (snd (or_flag k b r))"
proof (cases "py_index (length (internal r)) k")
  case None
  then show ?thesis using assms by (simp add: or_flag_def)
next
  case (Some i)
  let ?row = "internal r ! i"
  have "completed (?row\<lparr>FLAGS := FLAGS ?row OR b\<rparr>) = DONE (?row\<lparr>FLAGS := FLAGS ?row OR b\<rparr>)"
    using consistent_row[OF assms(1) Some] assms(2)
    by (auto simp: completed_def completed_or2 completed_or4)
  from consistent_update[OF assms(1) Some this] Some show ?thesis
    by (simp add: or_flag_def)
qed


lemma log_msg_fields [simp]:
  "input_vars (log_msg l r) = input_vars r" "output_vars (log_msg l r) = output_vars r"
  "inputs (log_msg l r) = inputs r" "outputs (log_msg l r) = outputs r"
  "internal (log_msg l r) = internal r" "sent (log_msg l r) = sent r"
  "logged (log_msg l r) = logged r @ [l]"
  by (simp_all add: log_msg_def)

lemma send_multipart_fields [simp]:
  "input_vars (send_multipart m r) = input_vars r" "output_vars (send_multipart m r) = output_vars r"
  "inputs (send_multipart m r) = inputs r" "outputs (send_multipart m r) = outputs r"
  "internal (send_multipart m r) = internal r" "sent (send_multipart m r) = sent r @ [m]"
  "logged (send_multipart m r) = logged r"
  by (simp_all add: send_multipart_def)

lemma handle_msg_READY_eq:
  assumes "take 4 address = ''req_''" "py_int (drop 4 address) = Some k"
  shows "handle_msg L r address (''READY'' # payload) =
     (case py_index (length (inputs r)) k of
        None \<Rightarrow> (Some IndexError, log_msg Debug r)
      | Some i \<Rightarrow>
          or_flag k 2
            (send_multipart [address, [], json_dumps L (input_vars r), tobytes L (inputs r ! i),
                             json_dumps L (output_vars r)]
               (log_msg Debug (log_msg Debug r))))"
  using assms by (simp add: handle_msg_def Let_def split: option.splits)

lemma handle_msg_DATA_eq:
  assumes "take 4 address = ''req_''" "py_int (drop 4 address) = Some k"
  shows "handle_msg L r address (''DATA'' # payload) =
     (case payload of
        [] \<Rightarrow> (Some IndexError, log_msg Debug r)
      | buf # _ \<Rightarrow>
         (case frombuffer L (output_vars r) buf of
            Inl e \<Rightarrow> (Some e, log_msg Debug r)
          | Inr recs \<Rightarrow>
             (case py_index (length (outputs r)) k of
                None \<Rightarrow> (Some IndexError, log_msg Debug r)
              | Some i \<Rightarrow>
                 (case recs of
                    [v] \<Rightarrow>
                      (case py_index (length (internal r)) k of
                         None \<Rightarrow> (Some IndexError, log_msg Debug (log_msg Debug r\<lparr>outputs := (outputs r)[i := v]\<rparr>))
                       | Some j \<Rightarrow>
                           (None,
                            send_multipart [address, [], ''ACK'']
                              (log_msg Debug
                                 ((log_msg Debug (log_msg Debug r\<lparr>outputs := (outputs r)[i := v]\<rparr>))
                                    \<lparr>internal := (internal r)
                                       [j := (internal r ! j)
                                          \<lparr>DONE := True, FLAGS := FLAGS (internal r ! j) OR 8\<rparr>]\<rparr>))))
                  | _ \<Rightarrow> (Some ValueError, log_msg Debug r)))))"
  using assms
  by (simp add: handle_msg_def Let_def split: list.splits sum.splits option.splits)

lemma handle_msg_TIME_eq:
  assumes "take 4 address = ''req_''" "py_int (drop 4 address) = Some k"
  shows "handle_msg L r address (''TIME'' # payload) =
     (case payload of
        [] \<Rightarrow> (Some IndexError, log_msg Debug r)
      | buf # _ \<Rightarrow>
         (case frombuffer_uint L buf of
            Inl e \<Rightarrow> (Some e, log_msg Debug r)
          | Inr ts \<Rightarrow>
             (case py_index (length (internal r)) k of
                None \<Rightarrow> (Some IndexError, log_msg Debug r)
              | Some i \<Rightarrow>
                 (case ts of
                    [t] \<Rightarrow>
                      (None,
                       send_multipart [address, [], ''ACK'']
                         (log_msg Debug
                            ((log_msg Debug r)\<lparr>internal := (internal r)[i := (internal r ! i)\<lparr>TIME := t\<rparr>]\<rparr>)))
                  | _ \<Rightarrow> (Some ValueError, log_msg Debug r)))))"
  using assms
  by (simp add: handle_msg_def Let_def split: list.splits sum.splits option.splits)

lemma handle_msg_DIE_eq:
  assumes "take 4 address = ''req_''" "py_int (drop 4 address) = Some k"
  shows "handle_msg L r address (''DIE'' # payload) =
     (case or_flag k 4 (log_msg Debug r) of
        (Some e, r1) \<Rightarrow> (Some e, r1)
      | (None, r1) \<Rightarrow> (None, send_multipart [address, [], ''ACK''] (log_msg Debug r1)))"
  using assms by (simp add: handle_msg_def Let_def)

lemma handle_msg_other_eq:
  assumes "take 4 address = ''req_''" "py_int (drop 4 address) = Some k"
    and "verb \<notin> {''READY'', ''DATA'', ''TIME'', ''DIE''}"
  shows "handle_msg L r address (verb # payload) = (None, log_msg Warning (log_msg Debug r))"
  using assms by (simp add: handle_msg_def Let_def)

lemma handle_msg_empty_eq:
  assumes "take 4 address = ''req_''" "py_int (drop 4 address) = Some k"
  shows "handle_msg L r address [] = (Some IndexError, r)"
  using assms by (simp add: handle_msg_def)

subsection \<open>Completed and done stay together\<close>

lemma handle_msg_consistent:
  assumes c: "flags_consistent r"
  shows "flags_consistent (snd (handle_msg L r address msg))"
proof (cases "take 4 address = ''req_''")
  case False
  then show ?thesis using c by (simp add: handle_unknown_client)
next
  case pre: True
  show ?thesis
  proof (cases "py_int (drop 4 address)")
    case None
    with pre c show ?thesis by (simp add: handle_not_int)
  next
    case (Some k)
    note eqs = handle_msg_READY_eq[OF pre Some] handle_msg_DATA_eq[OF pre Some]
      handle_msg_TIME_eq[OF pre Some] handle_msg_DIE_eq[OF pre Some]
    show ?thesis
    proof (cases msg)
      case Nil
      with pre Some c show ?thesis by (simp add: handle_msg_empty_eq)
    next
      case (Cons verb payload)
      consider (ready) "verb = ''READY''" | (data) "verb = ''DATA''" | (time) "verb = ''TIME''"
        | (die) "verb = ''DIE''" | (other) "verb \<notin> {''READY'', ''DATA'', ''TIME'', ''DIE''}"
        by auto
      then show ?thesis
      proof cases
        case ready
        have "flags_consistent (snd (or_flag k 2 (send_multipart m (log_msg l (log_msg l' r)))))"
          for m l l'
          by (rule or_flag_consistent) (simp_all add: c)
        then show ?thesis
          unfolding Cons ready eqs using c by (simp split: option.splits)
      next
        case data
        have row: "completed (row\<lparr>DONE := True, FLAGS := FLAGS row OR 8\<rparr>)
                     = DONE (row\<lparr>DONE := True, FLAGS := FLAGS row OR 8\<rparr>)" for row :: "'c internal_row"
          by (simp add: completed_def completed_or8)
        have "flags_consistent (r\<lparr>internal := (internal r)[j := (internal r ! j)\<lparr>DONE := True, FLAGS := FLAGS (internal r ! j) OR 8\<rparr>]\<rparr>)"
          if "py_index (length (internal r)) k = Some j" for j
          using c that row by (rule consistent_update)
        then show ?thesis
          unfolding Cons data eqs using c
          by (auto simp: flags_consistent_def split: option.splits list.splits sum.splits)
      next
        case time
        have "flags_consistent (r\<lparr>internal := (internal r)[j := (internal r ! j)\<lparr>TIME := t\<rparr>]\<rparr>)"
          if "py_index (length (internal r)) k = Some j" for j t
          using c that
          by (rule consistent_update) (use consistent_row[OF c that] in \<open>simp add: completed_def\<close>)
        then show ?thesis
          unfolding Cons time eqs using c
          by (auto simp: flags_consistent_def split: option.splits list.splits sum.splits)
      next
        case die
        have "flags_consistent (snd (or_flag k 4 (log_msg Debug r)))"
          by (rule or_flag_consistent) (simp_all add: c)
        then show ?thesis
          unfolding Cons die eqs
          by (cases "or_flag k 4 (log_msg Debug r)") (auto split: option.splits)
      next
        case other
        then show ?thesis
          unfolding Cons using c by (simp add: handle_msg_other_eq[OF pre Some])
      qed
    qed
  qed
qed

lemma serve_consistent:
  "flags_consistent r \<Longrightarrow>
     flags_consistent (foldl (\<lambda>r (address, msg). snd (handle_msg L r address msg)) r msgs)"
  by (induction msgs arbitrary: r) (auto simp: handle_msg_consistent split: prod.splits)

lemma allocate_consistent: "flags_consistent (allocate iv ov ins z t0)"
  by (simp add: flags_consistent_def allocate_def completed_def list_all_length)

lemma req_prefix: "take 4 (''req_'' @ s) = ''req_''" "drop 4 (''req_'' @ s) = s"
  by simp_all

lemma py_index_nat: "0 \<le> k \<Longrightarrow> k < int n \<Longrightarrow> py_index n k = Some (nat k)"
  by (simp add: py_index_def)

lemma table_size_demo: "table_size demo_runner 3"
  by (simp add: table_size_def demo_runner_def allocate_def)

lemma str_int_1: "str_int 1 = ''1''"
  by code_simp

lemma str_nat_1: "str_nat 1 = ''1''" "str_nat (Suc 0) = ''1''"
  by code_simp+

lemma handle_outside:
  assumes pre: "take 4 address = ''req_''" and k: "py_int (drop 4 address) = Some k"
    and t: "table_size r n" and out: "int n \<le> k \<or> k < - int n"
  shows "sent (snd (handle_msg L r address msg)) = sent r
       \<and> inputs (snd (handle_msg L r address msg)) = inputs r
       \<and> outputs (snd (handle_msg L r address msg)) = outputs r
       \<and> internal (snd (handle_msg L r address msg)) = internal r"
proof (cases msg)
  case Nil
  then show ?thesis by (simp add: handle_msg_empty_eq[OF pre k])
next
  case (Cons verb payload)
  have i: "py_index (length (inputs r)) k = None" "py_index (length (outputs r)) k = None"
    "py_index (length (internal r)) k = None"
    using t out by (simp_all add: table_size_def py_index_outside)
  consider (ready) "verb = ''READY''" | (data) "verb = ''DATA''" | (time) "verb = ''TIME''"
    | (die) "verb = ''DIE''" | (other) "verb \<notin> {''READY'', ''DATA'', ''TIME'', ''DIE''}"
    by auto
  then show ?thesis
  proof cases
    case ready
    show ?thesis unfolding Cons ready handle_msg_READY_eq[OF pre k] by (simp add: i)
  next
    case data
    show ?thesis unfolding Cons data handle_msg_DATA_eq[OF pre k]
      by (simp add: i split: list.splits sum.splits)
  next
    case time
    show ?thesis unfolding Cons time handle_msg_TIME_eq[OF pre k]
      by (simp add: i split: list.splits sum.splits)
  next
    case die
    show ?thesis unfolding Cons die handle_msg_DIE_eq[OF pre k]
      by (simp add: i or_flag_def)
  next
    case other
    show ?thesis unfolding Cons by (simp add: handle_msg_other_eq[OF pre k other])
  qed
qed

lemma consistent_rows:
  "flags_consistent r \<Longrightarrow> i < length (internal r)
     \<Longrightarrow> completed (internal r ! i) = DONE (internal r ! i)"
  unfolding flags_consistent_def by (rule list_all_nth)

subsection \<open>The request loop\<close>

lemma wlog_fields [simp]:
  "run_id (wlog l w) = run_id w" "retries (wlog l w) = retries w"
  "connected (wlog l w) = connected w" "input_w (wlog l w) = input_w w"
  "output_w (wlog l w) = output_w w" "time_w (wlog l w) = time_w w"
  "wire (wlog l w) = wire w" "wlogged (wlog l w) = wlogged w @ [l]"
  by (simp_all add: wlog_def)

lemma emit_fields [simp]:
  "run_id (emit e w) = run_id w" "retries (emit e w) = retries w"
  "connected (emit e w) = connected w" "input_w (emit e w) = input_w w"
  "output_w (emit e w) = output_w w" "time_w (emit e w) = time_w w"
  "wire (emit e w) = wire w @ [e]" "wlogged (emit e w) = wlogged w"
  by (simp_all add: emit_def)

lemma connect_fields [simp]:
  "run_id (connect w) = run_id w" "retries (connect w) = retries w"
  "connected (connect w)" "input_w (connect w) = input_w w"
  "output_w (connect w) = output_w w" "time_w (connect w) = time_w w"
  "wire (connect w) = wire w @ [Connect (''req_'' @ str_int (run_id w))]"
  "wlogged (connect w) = wlogged w @ [Info]"
  by (simp_all add: connect_def)

lemma disconnect_fields [simp]:
  "run_id (disconnect w) = run_id w" "retries (disconnect w) = retries w"
  "\<not> connected (disconnect w)" "input_w (disconnect w) = input_w w"
  "output_w (disconnect w) = output_w w" "time_w (disconnect w) = time_w w"
  "wire (disconnect w) = wire w @ [Disconnect]" "wlogged (disconnect w) = wlogged w"
  by (simp_all add: disconnect_def)

lemma request_msg_cong:
  "output_w w' = output_w w \<Longrightarrow> time_w w' = time_w w \<Longrightarrow> request_msg L w' req = request_msg L w req"
  by (simp add: request_msg_def)

lemma attempt_Timeout:
  "attempt L req Timeout tries w =
     abandon_or_reconnect (tries + 1)
       (emit Sleep (wlog Warning (wlog Debug (emit (Send (request_msg L w req)) w))))"
  by (simp add: attempt_def Let_def)

lemma attempt_not_ACK:
  assumes "req \<noteq> ''READY''" "f \<noteq> ''ACK''"
  shows "attempt L req (Reply (f # fs)) tries w =
     abandon_or_reconnect tries
       (wlog Error (wlog Debug (wlog Debug (emit (Send (request_msg L w req)) w))))"
  using assms by (simp add: attempt_def Let_def raised_def malformed_reply_def)

lemma attempt_ACK:
  assumes "req \<noteq> ''READY''"
  shows "attempt L req (Reply (''ACK'' # fs)) tries w =
     Done (None, wlog Debug (wlog Debug (emit (Send (request_msg L w req)) w)))"
  using assms by (simp add: attempt_def Let_def)




lemma passes_loop_Again:
  "request_passes k L req resp n tries w = Again t' w'
     \<Longrightarrow> request_loop L req resp n tries w = request_loop L req resp (n + k) t' w'"
proof (induction k arbitrary: n tries w)
  case 0
  then show ?case by simp
next
  case (Suc k)
  then show ?case
    by (subst request_loop.simps) (auto split: step.splits)
qed

lemma passes_loop_Done:
  "request_passes k L req resp n tries w = Done out
     \<Longrightarrow> request_loop L req resp n tries w = Some out"
proof (induction k arbitrary: n tries w)
  case 0
  then show ?case by simp
next
  case (Suc k)
  then show ?case
    by (subst request_loop.simps) (auto split: step.splits)
qed

lemma timeouts_passes:
  assumes "\<forall>j < k. resp (n + j) = Timeout" and "tries + int k \<le> retries w"
  shows "\<exists>w'. request_passes k L req resp n tries w = Again (tries + int k) w'
           \<and> wire w' = wire w @ concat (replicate k [Send (request_msg L w req), Sleep, Disconnect,
                                                      Connect (''req_'' @ str_int (run_id w))])
           \<and> retries w' = retries w \<and> run_id w' = run_id w
           \<and> output_w w' = output_w w \<and> time_w w' = time_w w \<and> input_w w' = input_w w
           \<and> (connected w \<longrightarrow> connected w')"
  using assms
proof (induction k arbitrary: n tries w)
  case 0
  then show ?case by simp
next
  case (Suc k)
  let ?m = "request_msg L w req"
  let ?a = "''req_'' @ str_int (run_id w)"
  let ?w1 = "connect (disconnect (emit Sleep (wlog Warning (wlog Debug (emit (Send ?m) w)))))"
  have r0: "resp n = Timeout" using Suc.prems(1) by (metis add.right_neutral zero_less_Suc)
  have a: "attempt L req (resp n) tries w = Again (tries + 1) ?w1"
    using Suc.prems(2) by (simp add: r0 attempt_Timeout abandon_or_reconnect_def)
  have "\<forall>j < k. resp (Suc n + j) = Timeout"
    using Suc.prems(1) by (metis add_Suc_shift Suc_less_eq)
  moreover have "(tries + 1) + int k \<le> retries ?w1" using Suc.prems(2) by simp
  ultimately obtain w' where
    p: "request_passes k L req resp (Suc n) (tries + 1) ?w1 = Again (tries + 1 + int k) w'"
    and w: "wire w' = wire ?w1 @ concat (replicate k [Send (request_msg L ?w1 req), Sleep, Disconnect,
                                                      Connect (''req_'' @ str_int (run_id ?w1))])"
    and f: "retries w' = retries ?w1" "run_id w' = run_id ?w1" "output_w w' = output_w ?w1"
       "time_w w' = time_w ?w1" "input_w w' = input_w ?w1" "connected w'"
    using Suc.IH [of "Suc n" "tries + 1" ?w1] by auto
  have m: "request_msg L ?w1 req = ?m" by (rule request_msg_cong) simp_all
  have "request_passes (Suc k) L req resp n tries w = Again (tries + int (Suc k)) w'"
    using a p by (simp add: add.assoc add.commute)
  moreover have "wire w' = wire w @ concat (replicate (Suc k) [Send ?m, Sleep, Disconnect, Connect ?a])"
    using w by (simp add: m)
  ultimately show ?case using f by simp
qed


lemma malformed_passes:
  assumes "req \<noteq> ''READY''" and "\<forall>j < k. \<exists>f fs. resp (n + j) = Reply (f # fs) \<and> f \<noteq> ''ACK''"
    and "tries \<le> retries w"
  shows "\<exists>w'. request_passes k L req resp n tries w = Again tries w'
           \<and> wire w' = wire w @ concat (replicate k [Send (request_msg L w req), Disconnect,
                                                      Connect (''req_'' @ str_int (run_id w))])
           \<and> retries w' = retries w \<and> run_id w' = run_id w
           \<and> output_w w' = output_w w \<and> time_w w' = time_w w \<and> input_w w' = input_w w"
  using assms(2,3)
proof (induction k arbitrary: n w)
  case 0
  then show ?case by simp
next
  case (Suc k)
  let ?m = "request_msg L w req"
  let ?a = "''req_'' @ str_int (run_id w)"
  let ?w1 = "connect (disconnect (wlog Error (wlog Debug (wlog Debug (emit (Send ?m) w)))))"
  obtain f fs where r0: "resp n = Reply (f # fs)" "f \<noteq> ''ACK''"
    using Suc.prems(1) by (metis add.right_neutral zero_less_Suc)
  have a: "attempt L req (resp n) tries w = Again tries ?w1"
    using Suc.prems(2) r0 assms(1) by (simp add: attempt_not_ACK abandon_or_reconnect_def)
  have "\<forall>j < k. \<exists>f fs. resp (Suc n + j) = Reply (f # fs) \<and> f \<noteq> ''ACK''"
    using Suc.prems(1) by (metis add_Suc_shift Suc_less_eq)
  moreover have "tries \<le> retries ?w1" using Suc.prems(2) by simp
  ultimately obtain w' where
    p: "request_passes k L req resp (Suc n) tries ?w1 = Again tries w'"
    and w: "wire w' = wire ?w1 @ concat (replicate k [Send (request_msg L ?w1 req), Disconnect,
                                                      Connect (''req_'' @ str_int (run_id ?w1))])"
    and f: "retries w' = retries ?w1" "run_id w' = run_id ?w1" "output_w w' = output_w ?w1"
       "time_w w' = time_w ?w1" "input_w w' = input_w ?w1"
    using Suc.IH [of "Suc n" ?w1] by auto
  have m: "request_msg L ?w1 req = ?m" by (rule request_msg_cong) simp_all
  have "request_passes (Suc k) L req resp n tries w = Again tries w'"
    using a p by simp
  moreover have "wire w' = wire w @ concat (replicate (Suc k) [Send ?m, Disconnect, Connect ?a])"
    using w by (simp add: m)
  ultimately show ?case using f by simp
qed

lemma well_formed_attempt:
  assumes "well_formed L req fs"
  shows "\<exists>w'. attempt L req (Reply fs) tries w = Done (None, w')
           \<and> wire w' = wire w @ [Send (request_msg L w req)]
           \<and> connected w' = connected w"
proof (cases "req = ''READY''")
  case True
  with assms show ?thesis
    by (auto simp: well_formed_def attempt_def Let_def split: list.splits sum.splits)
next
  case False
  with assms show ?thesis
    by (auto simp: well_formed_def attempt_def Let_def split: list.splits)
qed

lemma loop_never_returns:
  assumes "req \<noteq> ''READY''" and "\<forall>n. \<exists>f fs. resp n = Reply (f # fs) \<and> f \<noteq> ''ACK''"
    and "tries \<le> retries w"
  shows "request_loop L req resp n tries w = None"
proof (cases "request_loop L req resp n tries w")
  case None
  then show ?thesis .
next
  case (Some out)
  have "\<not> (L = L \<and> req = req \<and> resp = resp \<and> tries \<le> retries w)"
  proof (rule request_loop.raw_induct
      [where P = "\<lambda>L' req' resp' n' t' w' out. \<not> (L' = L \<and> req' = req \<and> resp' = resp \<and> t' \<le> retries w')",
        OF _ Some])
    fix loop L' req' resp' n' t' w' out
    assume ih: "\<And>L' req' resp' n' t' w' out. loop L' req' resp' n' t' w' = Some out \<Longrightarrow>
                  \<not> (L' = L \<and> req' = req \<and> resp' = resp \<and> t' \<le> retries w')"
      and st: "(case attempt L' req' (resp' n') t' w' of Done out \<Rightarrow> Some out
                | Again tries' w'' \<Rightarrow> loop L' req' resp' (Suc n') tries' w'') = Some out"
    show "\<not> (L' = L \<and> req' = req \<and> resp' = resp \<and> t' \<le> retries w')"
    proof
      assume h: "L' = L \<and> req' = req \<and> resp' = resp \<and> t' \<le> retries w'"
      obtain f fs where r0: "resp n' = Reply (f # fs)" "f \<noteq> ''ACK''"
        using assms(2) by blast
      let ?w1 = "connect (disconnect (wlog Error (wlog Debug (wlog Debug
                   (emit (Send (request_msg L w' req)) w')))))"
      have a: "attempt L req (resp n') t' w' = Again t' ?w1"
        using h r0 assms(1) by (simp add: attempt_not_ACK abandon_or_reconnect_def)
      with st h have "loop L req resp (Suc n') t' ?w1 = Some out" by simp
      from ih [OF this] h show False by simp
    qed
  qed
  with assms(3) show ?thesis by simp
qed


lemma request_valid:
  assumes "req \<in> {''READY'', ''DATA'', ''TIME''}"
  shows "request L w req resp =
           request_loop L req resp 0 0 (if connected w then w else connect (wlog Info w))"
  using assms by (auto simp: request_def Let_def)

lemma loop_after_timeouts:
  assumes r: "0 \<le> retries w" and t: "\<forall>j < nat (retries w). resp j = Timeout"
  shows "\<exists>w1. request_loop L req resp 0 0 w = request_loop L req resp (nat (retries w)) (retries w) w1
            \<and> wire w1 = wire w @ concat (replicate (nat (retries w))
                  [Send (request_msg L w req), Sleep, Disconnect, Connect (''req_'' @ str_int (run_id w))])
            \<and> retries w1 = retries w \<and> (connected w \<longrightarrow> connected w1)
            \<and> request_msg L w1 req = request_msg L w req"
proof -
  define k where "k = nat (retries w)"
  have k: "int k = retries w" using r by (simp add: k_def)
  have "\<forall>j < k. resp (0 + j) = Timeout" using t by (simp add: k_def)
  moreover have "0 + int k \<le> retries w" using k by simp
  ultimately have "\<exists>w'. request_passes k L req resp 0 0 w = Again (0 + int k) w'
           \<and> wire w' = wire w @ concat (replicate k [Send (request_msg L w req), Sleep, Disconnect,
                                                      Connect (''req_'' @ str_int (run_id w))])
           \<and> retries w' = retries w \<and> run_id w' = run_id w
           \<and> output_w w' = output_w w \<and> time_w w' = time_w w \<and> input_w w' = input_w w
           \<and> (connected w \<longrightarrow> connected w')"
    by (rule timeouts_passes)
  then obtain w1 where
    p: "request_passes k L req resp 0 0 w = Again (0 + int k) w1"
    and f: "wire w1 = wire w @ concat (replicate k [Send (request_msg L w req), Sleep,
                 Disconnect, Connect (''req_'' @ str_int (run_id w))])"
      "retries w1 = retries w" "output_w w1 = output_w w" "time_w w1 = time_w w"
      "connected w \<longrightarrow> connected w1"
    by (elim exE conjE)
  have m: "request_msg L w1 req = request_msg L w req"
    using f(3,4) by (rule request_msg_cong)
  have "request_loop L req resp 0 0 w = request_loop L req resp (0 + k) (0 + int k) w1"
    using p by (rule passes_loop_Again)
  then have "request_loop L req resp 0 0 w = request_loop L req resp k (retries w) w1"
    using k by simp
  with f m show ?thesis unfolding k_def [symmetric] by blast
qed


lemma loop_exhausts:
  assumes r: "0 \<le> retries w" and t: "\<forall>j \<le> nat (retries w). resp j = Timeout"
  shows "\<exists>w'. request_loop L req resp 0 0 w = Some (Some ConnectionError, w')
            \<and> \<not> connected w'
            \<and> wire w' = wire w @ concat (replicate (nat (retries w))
                  [Send (request_msg L w req), Sleep, Disconnect, Connect (''req_'' @ str_int (run_id w))])
                @ [Send (request_msg L w req), Sleep, Disconnect]"
proof -
  define k where "k = nat (retries w)"
  define m where "m = request_msg L w req"
  define pre where "pre = wire w @ concat (replicate k
                  [Send m, Sleep, Disconnect, Connect (''req_'' @ str_int (run_id w))])"
  from t have "\<forall>j < nat (retries w). resp j = Timeout" by simp
  from loop_after_timeouts [OF r this, of L req] obtain w1 where
    e: "request_loop L req resp 0 0 w = request_loop L req resp k (retries w) w1"
    and f: "wire w1 = pre" "retries w1 = retries w" "request_msg L w1 req = m"
    unfolding k_def m_def pre_def by (elim exE conjE)
  define w' where "w' = disconnect (wlog Error (emit Sleep (wlog Warning (wlog Debug (emit (Send m) w1)))))"
  have rk: "resp k = Timeout" using t by (simp add: k_def)
  have "attempt L req (resp k) (retries w) w1 = Done (Some ConnectionError, w')"
    unfolding rk attempt_Timeout f(3) w'_def by (simp add: abandon_or_reconnect_def f(2))
  then have "request_loop L req resp k (retries w) w1 = Some (Some ConnectionError, w')"
    by (subst request_loop.simps) simp
  with e have "request_loop L req resp 0 0 w = Some (Some ConnectionError, w')" by simp
  moreover have "\<not> connected w'" by (simp add: w'_def)
  moreover have "wire w' = pre @ [Send m, Sleep, Disconnect]" by (simp add: w'_def f(1))
  ultimately show ?thesis unfolding pre_def m_def k_def by auto
qed

lemma loop_last_attempt_succeeds:
  assumes r: "0 \<le> retries w" and t: "\<forall>j < nat (retries w). resp j = Timeout"
    and rk: "resp (nat (retries w)) = Reply fs" and wf: "well_formed L req fs"
    and c: "connected w"
  shows "\<exists>w'. request_loop L req resp 0 0 w = Some (None, w')
            \<and> connected w'
            \<and> wire w' = wire w @ concat (replicate (nat (retries w))
                  [Send (request_msg L w req), Sleep, Disconnect, Connect (''req_'' @ str_int (run_id w))])
                @ [Send (request_msg L w req)]"
proof -
  define k where "k = nat (retries w)"
  define m where "m = request_msg L w req"
  define pre where "pre = wire w @ concat (replicate k
                  [Send m, Sleep, Disconnect, Connect (''req_'' @ str_int (run_id w))])"
  from loop_after_timeouts [OF r t, of L req] obtain w1 where
    e: "request_loop L req resp 0 0 w = request_loop L req resp k (retries w) w1"
    and f: "wire w1 = pre" "connected w \<longrightarrow> connected w1" "request_msg L w1 req = m"
    unfolding k_def m_def pre_def by (elim exE conjE)
  from well_formed_attempt [OF wf, of "retries w" w1] obtain w' where
    a: "attempt L req (Reply fs) (retries w) w1 = Done (None, w')"
    and g: "wire w' = wire w1 @ [Send (request_msg L w1 req)]" "connected w' = connected w1"
    by (elim exE conjE)
  have "request_loop L req resp k (retries w) w1 = Some (None, w')"
    by (subst request_loop.simps) (simp add: rk [folded k_def] a)
  with e have "request_loop L req resp 0 0 w = Some (None, w')" by simp
  moreover have "connected w'" using g(2) f(2) c by simp
  moreover have "wire w' = pre @ [Send m]" using g(1) f(1,3) by simp
  ultimately show ?thesis unfolding pre_def m_def k_def by auto
qed





subsection \<open>Packing and unpacking\<close>

lemma length_le_bytes [simp]: "length (le_bytes w v) = w"
  by (induction w arbitrary: v) simp_all

lemma le_nat_le_bytes: "v < 256 ^ w \<Longrightarrow> le_nat (le_bytes w v) = v"
proof (induction w arbitrary: v)
  case 0
  then show ?case by simp
next
  case (Suc w)
  then have "v div 256 < 256 ^ w"
    by (simp add: less_mult_imp_div_less mult.commute)
  with Suc.IH have "le_nat (le_bytes w (v div 256)) = v div 256" by simp
  then show ?case by simp
qed

lemma decode_elems_encode:
  "list_all (\<lambda>v. v < 256 ^ w) vals \<Longrightarrow>
     decode_elems (length vals) w (concat (map (le_bytes w) vals) @ rest) = vals"
  by (induction vals) (simp_all add: le_nat_le_bytes)

lemma length_concat_le_bytes: "length (concat (map (le_bytes w) vals)) = length vals * w"
  by (induction vals) simp_all

lemma decode_encode:
  "conforms size_of fs rcd \<Longrightarrow> decode_record size_of fs (encode_record size_of fs rcd) = Inr rcd"
  unfolding conforms_def
proof (induction fs rcd rule: list_all2_induct)
  case Nil
  then show ?case by simp
next
  case (Cons f fs vals rcd)
  obtain name ty shape where f: "f = (name, ty, shape)" by (cases f)
  from Cons.hyps(1) f have l: "length vals = elems_of shape"
    and a: "list_all (\<lambda>v. v < 256 ^ size_of ty) vals" by simp_all
  have n: "length (encode_field size_of f vals) = field_bytes size_of f"
    by (simp add: encode_field_def field_bytes_def f length_concat_le_bytes l)
  have d: "decode_elems (elems_of shape) (size_of ty) (encode_field size_of f vals) = vals"
    using decode_elems_encode [OF a, of "[]"] by (simp add: encode_field_def f l)
  show ?case
    using Cons.IH n d by (simp add: f)
qed

lemma length_encode:
  "conforms size_of fs rcd \<Longrightarrow>
     length (encode_record size_of fs rcd) = sum_list (map (field_bytes size_of) fs)"
  unfolding conforms_def
proof (induction fs rcd rule: list_all2_induct)
  case Nil
  then show ?case by simp
next
  case (Cons f fs vals rcd)
  then show ?case
    by (cases f) (simp add: encode_field_def field_bytes_def length_concat_le_bytes)
qed

lemma attempt_READY_decodes:
  assumes "loads_input_descr L d_in = Inr idt" and "loads_output_descr L d_out = Inr odt"
    and "frombuffer L idt buf = Inr [v]" and "zeros L odt = Inr z"
  shows "attempt L ''READY'' (Reply [d_in, buf, d_out]) tries w =
           Done (None, wlog Debug (wlog Info
             ((wlog Debug (emit (Send (request_msg L w ''READY'')) w))\<lparr>input_w := v, output_w := z\<rparr>)))"
  using assms by (simp add: attempt_def Let_def)

section \<open>The claims\<close>

text \<open>
  Claim C3. In a campaign of \<open>n\<close> runs, for a run id \<open>rid\<close> with \<open>0 \<le> rid < n\<close>, handling a
  \<^verbatim>\<open>READY\<close> message from the address \<^verbatim>\<open>"req_" + str(rid)\<close> returns normally, sends
  exactly the five frames address, empty frame, input schema, input bytes of that run and
  output schema, and sets bit \<open>0x02\<close> of that run's flags. The other fields of that run,
  the rows of all other runs, and all inputs and outputs are unchanged.
\<close>

theorem ready_reply:
  assumes "table_size r n" and "0 \<le> rid" and "rid < int n"
  shows "(let i = nat rid; address = ''req_'' @ str_int rid;
              res = handle_msg L r address (''READY'' # rest); r' = snd res
          in fst res = None
           \<and> sent r' = sent r @ [[address, [], json_dumps L (input_vars r),
                                    tobytes L (inputs r ! i), json_dumps L (output_vars r)]]
           \<and> FLAGS (internal r' ! i) = FLAGS (internal r ! i) OR 2
           \<and> assigned (internal r' ! i)
           \<and> DONE (internal r' ! i) = DONE (internal r ! i)
           \<and> TIME (internal r' ! i) = TIME (internal r ! i)
           \<and> (\<forall>j. j \<noteq> i \<longrightarrow> internal r' ! j = internal r ! j)
           \<and> inputs r' = inputs r \<and> outputs r' = outputs r)"
proof -
  have i: "py_index n rid = Some (nat rid)" and l: "nat rid < length (internal r)"
    using assms by (simp_all add: py_index_nat table_size_def)
  have e: "handle_msg L r (''req_'' @ str_int rid) (''READY'' # rest) =
     (None, r\<lparr>internal := (internal r)[nat rid := (internal r ! nat rid)\<lparr>FLAGS := FLAGS (internal r ! nat rid) OR 2\<rparr>],
               sent := sent r @ [[''req_'' @ str_int rid, [], json_dumps L (input_vars r),
                                  tobytes L (inputs r ! nat rid), json_dumps L (output_vars r)]],
               logged := logged r @ [Debug, Debug]\<rparr>)"
    by (rule handle_READY[OF _ _ assms(1) i]) (simp_all only: req_prefix py_int_str_int)
  show ?thesis
    unfolding Let_def e using l by (simp add: assigned_def assigned_or2)
qed

theorem ready_reply_witness:
  "table_size demo_runner 3 \<and>
   fst (handle_msg demo_numpy demo_runner ''req_1'' [''READY'']) = None \<and>
   sent (snd (handle_msg demo_numpy demo_runner ''req_1'' [''READY''])) =
     [[''req_1'', [], ''[[x]]'', ''bb'', ''[[y]]'']] \<and>
   assigned (internal (snd (handle_msg demo_numpy demo_runner ''req_1'' [''READY''])) ! 1) \<and>
   internal (snd (handle_msg demo_numpy demo_runner ''req_1'' [''READY''])) ! 0 = internal demo_runner ! 0 \<and>
   internal (snd (handle_msg demo_numpy demo_runner ''req_1'' [''READY''])) ! 2 = internal demo_runner ! 2"
proof -
  have v: "sent demo_runner = []" "json_dumps demo_numpy (input_vars demo_runner) = ''[[x]]''"
    "json_dumps demo_numpy (output_vars demo_runner) = ''[[y]]''"
    "tobytes demo_numpy (inputs demo_runner ! 1) = ''bb''"
    by (simp_all add: demo_runner_def allocate_def demo_numpy_def)
  show ?thesis
    using ready_reply [OF table_size_demo, of 1 demo_numpy "[]"] table_size_demo v
    by (simp add: str_int_1 Let_def)
qed

text \<open>
  Claim C4. For a run id in range and a payload that decodes to one output record, handling
  \<^verbatim>\<open>DATA\<close> from \<^verbatim>\<open>"req_" + str(rid)\<close> returns normally, stores the decoded record as
  that run's output, sets \<^verbatim>\<open>DONE\<close> and flag bit \<open>0x08\<close>, and replies address, empty frame,
  \<^verbatim>\<open>ACK\<close>. A second \<^verbatim>\<open>DATA\<close> for the same run does the same with the new payload: the
  stored output is the last one written.
\<close>

theorem data_last_write_wins:
  assumes "table_size r n" and "0 \<le> rid" and "rid < int n"
    and "frombuffer L (output_vars r) buf = Inr [v]"
    and "frombuffer L (output_vars r) buf' = Inr [v']"
  shows "(let i = nat rid; address = ''req_'' @ str_int rid;
              res = handle_msg L r address (''DATA'' # buf # rest); r1 = snd res;
              res' = handle_msg L r1 address (''DATA'' # buf' # rest'); r2 = snd res'
          in fst res = None
           \<and> outputs r1 = (outputs r)[i := v] \<and> outputs r1 ! i = v
           \<and> DONE (internal r1 ! i) \<and> completed (internal r1 ! i)
           \<and> sent r1 = sent r @ [[address, [], ''ACK'']]
           \<and> fst res' = None
           \<and> outputs r2 = (outputs r)[i := v'] \<and> outputs r2 ! i = v'
           \<and> DONE (internal r2 ! i) \<and> completed (internal r2 ! i)
           \<and> sent r2 = sent r1 @ [[address, [], ''ACK'']])"
proof -
  let ?a = "''req_'' @ str_int rid"
  let ?i = "nat rid"
  let ?r1 = "r\<lparr>outputs := (outputs r)[?i := v],
               internal := (internal r)[?i := (internal r ! ?i)\<lparr>DONE := True, FLAGS := FLAGS (internal r ! ?i) OR 8\<rparr>],
               sent := sent r @ [[?a, [], ''ACK'']],
               logged := logged r @ [Debug, Debug, Debug]\<rparr>"
  let ?r2 = "?r1\<lparr>outputs := (outputs ?r1)[?i := v'],
               internal := (internal ?r1)[?i := (internal ?r1 ! ?i)\<lparr>DONE := True, FLAGS := FLAGS (internal ?r1 ! ?i) OR 8\<rparr>],
               sent := sent ?r1 @ [[?a, [], ''ACK'']],
               logged := logged ?r1 @ [Debug, Debug, Debug]\<rparr>"
  have i: "py_index n rid = Some ?i" and l: "?i < length (internal r)" "?i < length (outputs r)"
    using assms(1-3) by (simp_all add: py_index_nat table_size_def)
  have p: "take 4 ?a = ''req_''" "py_int (drop 4 ?a) = Some rid"
    by (simp_all only: req_prefix py_int_str_int)
  have e1: "handle_msg L r ?a (''DATA'' # buf # rest) = (None, ?r1)"
    by (rule handle_DATA[OF p assms(1) i assms(4)])
  have t1: "table_size ?r1 n" using assms(1) by (simp add: table_size_def)
  have f1: "frombuffer L (output_vars ?r1) buf' = Inr [v']" using assms(5) by simp
  have e2: "handle_msg L ?r1 ?a (''DATA'' # buf' # rest') = (None, ?r2)"
    by (rule handle_DATA[OF p t1 i f1])
  show ?thesis
    unfolding Let_def e1 snd_conv fst_conv e2 using l
    by (simp add: completed_def completed_or8)
qed

theorem data_last_write_wins_witness:
  "table_size demo_runner 3 \<and>
   frombuffer demo_numpy (output_vars demo_runner) ''ab'' = Inr [''ab''] \<and>
   frombuffer demo_numpy (output_vars demo_runner) ''cd'' = Inr [''cd''] \<and>
   fst (handle_msg demo_numpy demo_runner ''req_1'' [''DATA'', ''ab'']) = None \<and>
   outputs (snd (handle_msg demo_numpy demo_runner ''req_1'' [''DATA'', ''ab''])) ! 1 = ''ab'' \<and>
   outputs (snd (handle_msg demo_numpy
                   (snd (handle_msg demo_numpy demo_runner ''req_1'' [''DATA'', ''ab'']))
                   ''req_1'' [''DATA'', ''cd''])) ! 1 = ''cd''"
proof -
  have f: "frombuffer demo_numpy (output_vars demo_runner) ''ab'' = Inr [''ab'']"
    "frombuffer demo_numpy (output_vars demo_runner) ''cd'' = Inr [''cd'']"
    by (simp_all add: demo_numpy_def)
  show ?thesis
    using data_last_write_wins [OF table_size_demo _ _ f, of 1 "[]" "[]"] table_size_demo f
      table_size_demo [unfolded table_size_def]
    by (simp add: str_int_1 Let_def)
qed

text \<open>
  Claim C9. In a campaign of \<open>n\<close> runs, for \<open>1 \<le> k \<le> n\<close> the address \<^verbatim>\<open>"req_-" + str(k)\<close>
  passes the prefix check and parses to \<open>-k\<close>, and the handlers of \<^verbatim>\<open>READY\<close>,
  \<^verbatim>\<open>DATA\<close>, \<^verbatim>\<open>TIME\<close> and \<^verbatim>\<open>DIE\<close> read and write the entry of run \<open>n - k\<close>: a
  \<^verbatim>\<open>DATA\<close> message from \<^verbatim>\<open>req_-1\<close> overwrites the output and the done state of the
  last run.
\<close>

theorem negative_run_id_wraps:
  assumes "table_size r n" and "1 \<le> k" and "k \<le> n"
  shows "(let address = ''req_-'' @ str_nat k; i = n - k
          in take 4 address = ''req_'' \<and> py_int (drop 4 address) = Some (- int k)
           \<and> handle_msg L r address (''READY'' # rest) =
               (None, r\<lparr>internal := (internal r)[i := (internal r ! i)\<lparr>FLAGS := FLAGS (internal r ! i) OR 2\<rparr>],
                         sent := sent r @ [[address, [], json_dumps L (input_vars r),
                                            tobytes L (inputs r ! i), json_dumps L (output_vars r)]],
                         logged := logged r @ [Debug, Debug]\<rparr>)
           \<and> (\<forall>buf v. frombuffer L (output_vars r) buf = Inr [v] \<longrightarrow>
                handle_msg L r address (''DATA'' # buf # rest) =
                  (None, r\<lparr>outputs := (outputs r)[i := v],
                            internal := (internal r)[i := (internal r ! i)\<lparr>DONE := True, FLAGS := FLAGS (internal r ! i) OR 8\<rparr>],
                            sent := sent r @ [[address, [], ''ACK'']],
                            logged := logged r @ [Debug, Debug, Debug]\<rparr>))
           \<and> (\<forall>buf t. frombuffer_uint L buf = Inr [t] \<longrightarrow>
                handle_msg L r address (''TIME'' # buf # rest) =
                  (None, r\<lparr>internal := (internal r)[i := (internal r ! i)\<lparr>TIME := t\<rparr>],
                            sent := sent r @ [[address, [], ''ACK'']],
                            logged := logged r @ [Debug, Debug]\<rparr>))
           \<and> handle_msg L r address (''DIE'' # rest) =
               (None, r\<lparr>internal := (internal r)[i := (internal r ! i)\<lparr>FLAGS := FLAGS (internal r ! i) OR 4\<rparr>],
                         sent := sent r @ [[address, [], ''ACK'']],
                         logged := logged r @ [Debug, Debug]\<rparr>))"
proof -
  let ?a = "''req_-'' @ str_nat k"
  have p: "take 4 ?a = ''req_''" "py_int (drop 4 ?a) = Some (- int k)"
    using py_int_minus_str_nat [of k] by simp_all
  have i: "py_index n (- int k) = Some (n - k)"
    using assms(2,3) by (rule py_index_negative)
  note h = handle_READY [OF p assms(1) i] handle_DATA [OF p assms(1) i]
    handle_TIME [OF p assms(1) i] handle_DIE [OF p assms(1) i]
  show ?thesis
    unfolding Let_def using p h by blast
qed

theorem negative_run_id_wraps_witness:
  "table_size demo_runner 3 \<and> (1::nat) \<le> 1 \<and> (1::nat) \<le> 3 \<and>
   handle_msg demo_numpy demo_runner ''req_-1'' [''DATA'', ''ab''] =
     (None, demo_runner\<lparr>outputs := [''00'', ''00'', ''ab''],
              internal := [\<lparr>DONE = False, TIME = 0, FLAGS = 0\<rparr>, \<lparr>DONE = False, TIME = 0, FLAGS = 0\<rparr>,
                           \<lparr>DONE = True, TIME = 0, FLAGS = 8\<rparr>],
              sent := [[''req_-1'', [], ''ACK'']],
              logged := [Debug, Debug, Debug]\<rparr>)"
proof -
  have f: "frombuffer demo_numpy (output_vars demo_runner) ''ab'' = Inr [''ab'']"
    by (simp add: demo_numpy_def)
  have "\<forall>buf v. frombuffer demo_numpy (output_vars demo_runner) buf = Inr [v] \<longrightarrow>
          handle_msg demo_numpy demo_runner (''req_-'' @ str_nat 1) (''DATA'' # buf # []) =
            (None, demo_runner\<lparr>outputs := (outputs demo_runner)[3 - 1 := v],
               internal := (internal demo_runner)[3 - 1 := (internal demo_runner ! (3 - 1))
                  \<lparr>DONE := True, FLAGS := FLAGS (internal demo_runner ! (3 - 1)) OR 8\<rparr>],
               sent := sent demo_runner @ [[''req_-'' @ str_nat 1, [], ''ACK'']],
               logged := logged demo_runner @ [Debug, Debug, Debug]\<rparr>)"
    using negative_run_id_wraps [OF table_size_demo, of 1 demo_numpy "[]"]
    unfolding Let_def by simp
  with f have "handle_msg demo_numpy demo_runner (''req_-'' @ str_nat 1) [''DATA'', ''ab''] =
            (None, demo_runner\<lparr>outputs := (outputs demo_runner)[3 - 1 := ''ab''],
               internal := (internal demo_runner)[3 - 1 := (internal demo_runner ! (3 - 1))
                  \<lparr>DONE := True, FLAGS := FLAGS (internal demo_runner ! (3 - 1)) OR 8\<rparr>],
               sent := sent demo_runner @ [[''req_-'' @ str_nat 1, [], ''ACK'']],
               logged := logged demo_runner @ [Debug, Debug, Debug]\<rparr>)"
    by blast
  then show ?thesis
    using table_size_demo by (simp add: str_nat_1 demo_runner_def allocate_def)
qed

text \<open>
  Claim C1, as the code has it. A message whose address does not start with \<^verbatim>\<open>req_\<close>, or
  whose remainder is not an integer literal, or whose run id is at least the size or below
  minus the size, gets no reply and changes no entry of the table (inputs, outputs, internal
  rows). When the address does not start with \<^verbatim>\<open>req_\<close> the call logs a warning and returns
  normally, and \<^verbatim>\<open>poll\<close> goes on with the next message.
\<close>

theorem unknown_sender_no_reply:
  assumes "table_size r n"
    and "take 4 address \<noteq> ''req_'' \<or> py_int (drop 4 address) = None
         \<or> (\<exists>k. py_int (drop 4 address) = Some k \<and> (int n \<le> k \<or> k < - int n))"
  shows "(let res = handle_msg L r address msg; r' = snd res
          in sent r' = sent r \<and> inputs r' = inputs r \<and> outputs r' = outputs r
           \<and> internal r' = internal r
           \<and> (take 4 address \<noteq> ''req_'' \<longrightarrow>
                res = (None, log_msg Warning r)
              \<and> poll_loop L r ((address # frames) # queue) = poll_loop L (log_msg Warning r) queue))"
proof (cases "take 4 address = ''req_''")
  case False
  have "\<And>m. handle_msg L r address m = (None, log_msg Warning r)"
    using False by (rule handle_unknown_client)
  then show ?thesis using False by (simp add: Let_def)
next
  case True
  show ?thesis
  proof (cases "py_int (drop 4 address)")
    case None
    then show ?thesis using True by (simp add: Let_def handle_not_int)
  next
    case (Some k)
    with assms(2) True have "int n \<le> k \<or> k < - int n" by simp
    from handle_outside[OF True Some assms(1) this] True show ?thesis
      by (simp add: Let_def)
  qed
qed

theorem unknown_sender_no_reply_witness:
  "table_size demo_runner 3 \<and> take 4 ''hello'' \<noteq> ''req_'' \<and>
   handle_msg demo_numpy demo_runner ''hello'' [''READY''] = (None, log_msg Warning demo_runner) \<and>
   sent (snd (handle_msg demo_numpy demo_runner ''hello'' [''READY''])) = sent demo_runner \<and>
   internal (snd (handle_msg demo_numpy demo_runner ''hello'' [''READY''])) = internal demo_runner \<and>
   poll_loop demo_numpy demo_runner [[''hello'', [], ''READY''], [''req_1'', [], ''READY'']] =
     poll_loop demo_numpy (log_msg Warning demo_runner) [[''req_1'', [], ''READY'']]"
  using unknown_sender_no_reply [OF table_size_demo, of "''hello''" demo_numpy "[''READY'']"
      "[[], ''READY'']" "[[''req_1'', [], ''READY'']]"] table_size_demo
  by (simp add: Let_def)

text \<open>
  Claim C1 as stated fails: an address \<^verbatim>\<open>req_x\<close> raises \<^verbatim>\<open>ValueError\<close>, a run id equal
  to the size raises \<^verbatim>\<open>IndexError\<close>, and the run id \<open>-1\<close>, which is outside \<open>[0, size)\<close>,
  is answered with \<^verbatim>\<open>ACK\<close> and overwrites the output of the last run.
\<close>

theorem unknown_sender_counterexample:
  "fst (handle_msg demo_numpy demo_runner ''req_x'' [''READY'']) = Some ValueError
   \<and> fst (handle_msg demo_numpy demo_runner ''req_3'' [''READY'']) = Some IndexError
   \<and> sent (snd (handle_msg demo_numpy demo_runner ''req_-1'' [''DATA'', ''ab''])) = [[''req_-1'', [], ''ACK'']]
   \<and> outputs (snd (handle_msg demo_numpy demo_runner ''req_-1'' [''DATA'', ''ab''])) = [''00'', ''00'', ''ab'']
   \<and> outputs demo_runner = [''00'', ''00'', ''00'']"
  by code_simp

text \<open>
  Claim C5. Starting from the table as allocated, after any sequence of messages handled
  (whatever their addresses, verbs and payloads, and whether or not a call raised), every
  run has its completed bit \<open>0x08\<close> set exactly when \<^verbatim>\<open>DONE\<close> is true. In particular,
  after \<^verbatim>\<open>READY\<close> for a run in range, handling its \<^verbatim>\<open>DATA\<close> and \<^verbatim>\<open>TIME\<close> (with
  payloads that decode) in either order leaves the bit set and \<^verbatim>\<open>DONE\<close> true.
\<close>

theorem completed_iff_done:
  "(let r' = foldl (\<lambda>r (address, msg). snd (handle_msg L r address msg))
               (allocate ivars ovars ins zero_rec zero_t) msgs
    in \<forall>i < length (internal r'). completed (internal r' ! i) = DONE (internal r' ! i))
   \<and> (table_size r n \<and> 0 \<le> rid \<and> rid < int n
        \<and> frombuffer L (output_vars r) buf = Inr [v] \<and> frombuffer_uint L tbuf = Inr [t] \<longrightarrow>
       (let i = nat rid; address = ''req_'' @ str_int rid;
            r1 = snd (handle_msg L r address [''READY'']);
            r2 = snd (handle_msg L r1 address [''DATA'', buf]);
            r3 = snd (handle_msg L r2 address [''TIME'', tbuf]);
            q2 = snd (handle_msg L r1 address [''TIME'', tbuf]);
            q3 = snd (handle_msg L q2 address [''DATA'', buf])
        in completed (internal r3 ! i) \<and> DONE (internal r3 ! i)
         \<and> completed (internal q3 ! i) \<and> DONE (internal q3 ! i)))"
proof (intro conjI impI)
  show "let r' = foldl (\<lambda>r (address, msg). snd (handle_msg L r address msg))
               (allocate ivars ovars ins zero_rec zero_t) msgs
    in \<forall>i < length (internal r'). completed (internal r' ! i) = DONE (internal r' ! i)"
  proof -
    have "flags_consistent (foldl (\<lambda>r (address, msg). snd (handle_msg L r address msg))
               (allocate ivars ovars ins zero_rec zero_t) msgs)"
      by (rule serve_consistent [OF allocate_consistent])
    from consistent_rows [OF this] show ?thesis
      unfolding Let_def by simp
  qed
next
  assume a: "table_size r n \<and> 0 \<le> rid \<and> rid < int n
        \<and> frombuffer L (output_vars r) buf = Inr [v] \<and> frombuffer_uint L tbuf = Inr [t]"
  let ?a = "''req_'' @ str_int rid"
  let ?i = "nat rid"
  have i: "py_index n rid = Some ?i"
    using a by (simp add: py_index_nat)
  have l: "?i < n"
    using a by linarith
  have p: "take 4 ?a = ''req_''" "py_int (drop 4 ?a) = Some rid"
    by (simp_all only: req_prefix py_int_str_int)
  have ts: "table_size r n" using a by simp
  have len: "length (internal r) = n" using ts by (simp add: table_size_def)
  obtain r1 where e1: "handle_msg L r ?a [''READY''] = (None, r1)"
    and t1: "table_size r1 n" and v1: "output_vars r1 = output_vars r"
    using handle_READY [OF p ts i, of L "[]"] ts by (simp add: table_size_def)
  have fb: "frombuffer L (output_vars r1) buf = Inr [v]" using a v1 by simp
  have ft: "frombuffer_uint L tbuf = Inr [t]" using a by simp
  obtain r2 where e2: "handle_msg L r1 ?a [''DATA'', buf] = (None, r2)"
    and t2: "table_size r2 n"
    and d2: "DONE (internal r2 ! ?i)" "completed (internal r2 ! ?i)"
    using handle_DATA [OF p t1 i fb, of "[]"] t1 l
    by (simp add: table_size_def completed_def completed_or8)
  obtain r3 where e3: "handle_msg L r2 ?a [''TIME'', tbuf] = (None, r3)"
    and d3: "DONE (internal r3 ! ?i)" "completed (internal r3 ! ?i)"
    using handle_TIME [OF p t2 i ft, of "[]"] t2 l d2
    by (simp add: table_size_def completed_def)
  obtain q2 where f2: "handle_msg L r1 ?a [''TIME'', tbuf] = (None, q2)"
    and u2: "table_size q2 n" and w2: "output_vars q2 = output_vars r"
    using handle_TIME [OF p t1 i ft, of "[]"] t1 v1 by (simp add: table_size_def)
  have fb': "frombuffer L (output_vars q2) buf = Inr [v]" using a w2 by simp
  obtain q3 where f3: "handle_msg L q2 ?a [''DATA'', buf] = (None, q3)"
    and g3: "DONE (internal q3 ! ?i)" "completed (internal q3 ! ?i)"
    using handle_DATA [OF p u2 i fb', of "[]"] u2 l
    by (simp add: table_size_def completed_def completed_or8)
  show "let i = nat rid; address = ''req_'' @ str_int rid;
            r1 = snd (handle_msg L r address [''READY'']);
            r2 = snd (handle_msg L r1 address [''DATA'', buf]);
            r3 = snd (handle_msg L r2 address [''TIME'', tbuf]);
            q2 = snd (handle_msg L r1 address [''TIME'', tbuf]);
            q3 = snd (handle_msg L q2 address [''DATA'', buf])
        in completed (internal r3 ! i) \<and> DONE (internal r3 ! i)
         \<and> completed (internal q3 ! i) \<and> DONE (internal q3 ! i)"
    unfolding Let_def e1 e2 e3 f2 f3 snd_conv using d3 g3 by simp
qed

theorem completed_iff_done_witness:
  "table_size demo_runner 3 \<and>
   frombuffer demo_numpy (output_vars demo_runner) ''ab'' = Inr [''ab''] \<and>
   frombuffer_uint demo_numpy ''a'' = Inr [97] \<and>
   completed (internal (snd (handle_msg demo_numpy
       (snd (handle_msg demo_numpy (snd (handle_msg demo_numpy demo_runner ''req_1'' [''READY'']))
          ''req_1'' [''DATA'', ''ab''])) ''req_1'' [''TIME'', ''a''])) ! 1) \<and>
   DONE (internal (snd (handle_msg demo_numpy
       (snd (handle_msg demo_numpy (snd (handle_msg demo_numpy demo_runner ''req_1'' [''READY'']))
          ''req_1'' [''TIME'', ''a''])) ''req_1'' [''DATA'', ''ab''])) ! 1)"
proof -
  have f: "frombuffer demo_numpy (output_vars demo_runner) ''ab'' = Inr [''ab'']"
    "frombuffer_uint demo_numpy ''a'' = Inr [97]"
    by (simp_all add: demo_numpy_def)
  show ?thesis
    using completed_iff_done [where L = demo_numpy and r = demo_runner and n = 3 and rid = 1
        and buf = "''ab''" and v = "''ab''" and tbuf = "''a''" and t = 97]
      table_size_demo f
    by (simp add: str_int_1 Let_def)
qed

text \<open>
  Claim C7, as the code has it. For a verb outside \<^verbatim>\<open>READY\<close>, \<^verbatim>\<open>DATA\<close>, \<^verbatim>\<open>TIME\<close>,
  \<^verbatim>\<open>request\<close> raises \<^verbatim>\<open>ValueError\<close> without sending a message and without entering the
  retry loop. A worker that is connected is left exactly as it was; a worker that is not
  connected is connected first (the check of \<^verbatim>\<open>_connected\<close> precedes the check of the
  verb), and that is the only thing done to its socket.
\<close>

theorem unknown_verb_raises:
  assumes "req \<notin> {''READY'', ''DATA'', ''TIME''}"
  shows "(let w' = (if connected w then w else connect (wlog Info w))
          in request L w req resp = Some (Some ValueError, w')
           \<and> wire w' = wire w @ (if connected w then [] else [Connect (''req_'' @ str_int (run_id w))])
           \<and> (connected w \<longrightarrow> w' = w))"
  using assms by (simp add: request_def Let_def)

theorem unknown_verb_raises_witness:
  "''DIE'' \<notin> {''READY'', ''DATA'', ''TIME''} \<and> connected demo_worker \<and>
   request demo_numpy demo_worker ''DIE'' silent = Some (Some ValueError, demo_worker)"
proof -
  have v: "''DIE'' \<notin> {''READY'', ''DATA'', ''TIME''}" by simp
  have c: "connected demo_worker" by (simp add: demo_worker_def)
  show ?thesis
    using unknown_verb_raises [OF v, of demo_worker demo_numpy silent] v c
    by (simp add: Let_def)
qed

text \<open>
  Claim C7 as stated fails for a worker that is not connected: \<^verbatim>\<open>request("DIE")\<close> opens
  and connects the socket and sets \<^verbatim>\<open>_connected\<close> before it raises.
\<close>

theorem unknown_verb_counterexample:
  "request demo_numpy (demo_worker\<lparr>connected := False\<rparr>) ''DIE'' silent =
     Some (Some ValueError,
           demo_worker\<lparr>connected := True, wire := [Connect ''req_1''], wlogged := [Info, Info]\<rparr>)
   \<and> demo_worker\<lparr>connected := True, wire := [Connect ''req_1''], wlogged := [Info, Info]\<rparr>
       \<noteq> demo_worker\<lparr>connected := False\<rparr>"
  by code_simp

text \<open>
  Claim C2. For a valid verb and a retry count \<open>retries \<ge> 0\<close>: if the polls of attempts
  \<open>0 \<dots> retries\<close> all time out, \<^verbatim>\<open>request\<close> ends by raising \<^verbatim>\<open>ConnectionError\<close> with
  the connection closed, having sent the request exactly \<open>retries + 1\<close> times (each send
  followed by a sleep and a close, and all but the last by a reconnect) and nothing after.
  If the first \<open>retries\<close> attempts time out and attempt number \<open>retries\<close> (the
  \<open>(retries + 1)\<close>-th) gets a well-formed reply, \<^verbatim>\<open>request\<close> returns normally.
\<close>

theorem timeouts_exhaust_retries:
  assumes "req \<in> {''READY'', ''DATA'', ''TIME''}" and "0 \<le> retries w"
  shows "(let w0 = (if connected w then w else connect (wlog Info w));
              m = request_msg L w req; a = ''req_'' @ str_int (run_id w); k = nat (retries w)
          in ((\<forall>j \<le> k. resp j = Timeout) \<longrightarrow>
               (\<exists>w'. request L w req resp = Some (Some ConnectionError, w')
                    \<and> \<not> connected w'
                    \<and> wire w' = wire w0 @ concat (replicate k [Send m, Sleep, Disconnect, Connect a])
                                 @ [Send m, Sleep, Disconnect]))
           \<and> ((\<forall>j < k. resp j = Timeout) \<and> (\<exists>fs. resp k = Reply fs \<and> well_formed L req fs) \<longrightarrow>
               (\<exists>w'. request L w req resp = Some (None, w')
                    \<and> connected w'
                    \<and> wire w' = wire w0 @ concat (replicate k [Send m, Sleep, Disconnect, Connect a])
                                 @ [Send m])))"
proof -
  define w0 where "w0 = (if connected w then w else connect (wlog Info w))"
  have w0: "connected w0" "retries w0 = retries w" "run_id w0 = run_id w"
    "request_msg L w0 req = request_msg L w req"
    by (simp_all add: w0_def request_msg_def)
  have r: "0 \<le> retries w0" using assms(2) w0(2) by simp
  have q: "request L w req resp = request_loop L req resp 0 0 w0"
    unfolding w0_def by (rule request_valid [OF assms(1)])
  note A = loop_exhausts [OF r, of resp L req, unfolded w0(2,3,4)]
  note B = loop_last_attempt_succeeds [OF r _ _ _ w0(1), of resp _ L req, unfolded w0(2,3,4)]
  show ?thesis
    unfolding Let_def q w0_def [symmetric] using A B by blast
qed

theorem timeouts_exhaust_retries_witness:
  "''TIME'' \<in> {''READY'', ''DATA'', ''TIME''} \<and> 0 \<le> retries demo_worker
   \<and> silent 0 = Timeout \<and> silent 1 = Timeout \<and> silent 2 = Timeout
   \<and> (\<exists>w'. request demo_numpy demo_worker ''TIME'' silent = Some (Some ConnectionError, w')
          \<and> \<not> connected w'
          \<and> wire w' = [Send [''TIME'', uint_tobytes demo_numpy 7], Sleep, Disconnect, Connect ''req_1'',
                        Send [''TIME'', uint_tobytes demo_numpy 7], Sleep, Disconnect, Connect ''req_1'',
                        Send [''TIME'', uint_tobytes demo_numpy 7], Sleep, Disconnect])
   \<and> late_ack 0 = Timeout \<and> late_ack 1 = Timeout \<and> late_ack 2 = Reply [''ACK'']
   \<and> well_formed demo_numpy ''TIME'' [''ACK'']
   \<and> (\<exists>w'. request demo_numpy demo_worker ''TIME'' late_ack = Some (None, w')
          \<and> connected w'
          \<and> wire w' = [Send [''TIME'', uint_tobytes demo_numpy 7], Sleep, Disconnect, Connect ''req_1'',
                        Send [''TIME'', uint_tobytes demo_numpy 7], Sleep, Disconnect, Connect ''req_1'',
                        Send [''TIME'', uint_tobytes demo_numpy 7]])"
proof -
  have v: "''TIME'' \<in> {''READY'', ''DATA'', ''TIME''}" by simp
  have r: "0 \<le> retries demo_worker" "nat (retries demo_worker) = 2" "connected demo_worker"
    "wire demo_worker = []" "run_id demo_worker = 1"
    "request_msg demo_numpy demo_worker ''TIME'' = [''TIME'', uint_tobytes demo_numpy 7]"
    by (simp_all add: demo_worker_def request_msg_def)
  have s: "\<forall>j \<le> 2. silent j = Timeout" by (simp add: silent_def)
  have l: "\<forall>j < 2. late_ack j = Timeout" "late_ack 2 = Reply [''ACK'']"
    "well_formed demo_numpy ''TIME'' [''ACK'']"
    by (simp_all add: late_ack_def well_formed_def)
  have c: "concat (replicate 2 xs) = xs @ xs" for xs :: "event list"
    by (simp add: numeral_2_eq_2)
  from timeouts_exhaust_retries [OF v r(1), of demo_numpy silent] s
  have A: "\<exists>w'. request demo_numpy demo_worker ''TIME'' silent = Some (Some ConnectionError, w')
          \<and> \<not> connected w'
          \<and> wire w' = [Send [''TIME'', uint_tobytes demo_numpy 7], Sleep, Disconnect, Connect ''req_1'',
                        Send [''TIME'', uint_tobytes demo_numpy 7], Sleep, Disconnect, Connect ''req_1'',
                        Send [''TIME'', uint_tobytes demo_numpy 7], Sleep, Disconnect]"
    unfolding Let_def r c by (simp add: str_int_1 r)
  from timeouts_exhaust_retries [OF v r(1), of demo_numpy late_ack] l
  have B: "\<exists>w'. request demo_numpy demo_worker ''TIME'' late_ack = Some (None, w')
          \<and> connected w'
          \<and> wire w' = [Send [''TIME'', uint_tobytes demo_numpy 7], Sleep, Disconnect, Connect ''req_1'',
                        Send [''TIME'', uint_tobytes demo_numpy 7], Sleep, Disconnect, Connect ''req_1'',
                        Send [''TIME'', uint_tobytes demo_numpy 7]]"
    unfolding Let_def r c by (simp add: str_int_1 r)
  have e: "silent 0 = Timeout" "silent 1 = Timeout" "silent 2 = Timeout"
    "late_ack 0 = Timeout" "late_ack 1 = Timeout"
    by (simp_all add: silent_def late_ack_def)
  from v r(1) e l(2,3) A B show ?thesis by blast
qed



text \<open>
  Claim C10. For \<^verbatim>\<open>DATA\<close> or \<^verbatim>\<open>TIME\<close> and \<open>retries \<ge> 0\<close>, against a responder that
  answers every attempt in time with a first frame other than \<^verbatim>\<open>ACK\<close>, \<^verbatim>\<open>request\<close>
  never returns and never raises: after any number \<open>k\<close> of passes the loop is still running
  with \<^verbatim>\<open>tries = 0\<close>, having sent the request \<open>k\<close> times and never slept. The responder
  \<open>nak\<close> is one such.
\<close>

theorem request_may_never_return:
  assumes "req = ''DATA'' \<or> req = ''TIME''" and "0 \<le> retries w"
    and "\<forall>n. \<exists>frame frames. resp n = Reply (frame # frames) \<and> frame \<noteq> ''ACK''"
  shows "(let w0 = (if connected w then w else connect (wlog Info w))
          in request L w req resp = None
           \<and> (\<forall>k. \<exists>w'. request_passes k L req resp 0 0 w0 = Again 0 w'
                    \<and> wire w' = wire w0 @ concat (replicate k [Send (request_msg L w req), Disconnect,
                                                   Connect (''req_'' @ str_int (run_id w))])))"
proof -
  define w0 where "w0 = (if connected w then w else connect (wlog Info w))"
  have w0: "retries w0 = retries w" "run_id w0 = run_id w"
    "request_msg L w0 req = request_msg L w req"
    by (simp_all add: w0_def request_msg_def)
  have nr: "req \<noteq> ''READY''" using assms(1) by auto
  have v: "req \<in> {''READY'', ''DATA'', ''TIME''}" using assms(1) by auto
  have r: "0 \<le> retries w0" using assms(2) w0(1) by simp
  have "request L w req resp = request_loop L req resp 0 0 w0"
    unfolding w0_def by (rule request_valid [OF v])
  also have "\<dots> = None"
    using nr assms(3) r by (rule loop_never_returns)
  finally have A: "request L w req resp = None" .
  have B: "\<exists>w'. request_passes k L req resp 0 0 w0 = Again 0 w'
             \<and> wire w' = wire w0 @ concat (replicate k [Send (request_msg L w req), Disconnect,
                                                   Connect (''req_'' @ str_int (run_id w))])" for k
  proof -
    have "\<forall>j < k. \<exists>f fs. resp (0 + j) = Reply (f # fs) \<and> f \<noteq> ''ACK''"
      using assms(3) by blast
    from malformed_passes [OF nr this r, of L, unfolded w0] show ?thesis by blast
  qed
  show ?thesis
    unfolding Let_def w0_def [symmetric] using A B by blast
qed

theorem request_may_never_return_witness:
  "(''DATA'' = ''DATA'' \<or> ''DATA'' = ''TIME'') \<and> 0 \<le> retries demo_worker
   \<and> (\<forall>n. \<exists>frame frames. nak n = Reply (frame # frames) \<and> frame \<noteq> ''ACK'')
   \<and> request demo_numpy demo_worker ''DATA'' nak = None
   \<and> (\<exists>w'. request_passes 5 demo_numpy ''DATA'' nak 0 0 demo_worker = Again 0 w'
          \<and> Sleep \<notin> set (wire w'))"
proof -
  have v: "''DATA'' = ''DATA'' \<or> ''DATA'' = ''TIME''" by simp
  have r: "0 \<le> retries demo_worker" "connected demo_worker" "wire demo_worker = []"
    by (simp_all add: demo_worker_def)
  have n: "\<forall>n. \<exists>frame frames. nak n = Reply (frame # frames) \<and> frame \<noteq> ''ACK''"
    by (simp add: nak_def)
  from request_may_never_return [OF v r(1) n, of demo_numpy]
  have A: "request demo_numpy demo_worker ''DATA'' nak = None"
    and B: "\<forall>k. \<exists>w'. request_passes k demo_numpy ''DATA'' nak 0 0 demo_worker = Again 0 w'
                    \<and> wire w' = wire demo_worker @ concat (replicate k
                         [Send (request_msg demo_numpy demo_worker ''DATA''), Disconnect,
                          Connect (''req_'' @ str_int (run_id demo_worker))])"
    by (simp_all add: Let_def r)
  from B obtain w' where "request_passes 5 demo_numpy ''DATA'' nak 0 0 demo_worker = Again 0 w'"
    and "wire w' = wire demo_worker @ concat (replicate 5
                         [Send (request_msg demo_numpy demo_worker ''DATA''), Disconnect,
                          Connect (''req_'' @ str_int (run_id demo_worker))])"
    by blast
  then have "\<exists>w'. request_passes 5 demo_numpy ''DATA'' nak 0 0 demo_worker = Again 0 w'
          \<and> Sleep \<notin> set (wire w')"
    by (auto simp: r)
  with v r(1) n A show ?thesis by blast
qed

text \<open>
  Claim C8. For every schema and every record that conforms to it, decoding the encoding of
  the record under the same schema gives the record back, and the encoding has the length
  the schema's layout fixes. On the wire: when the library's \<^verbatim>\<open>json\<close> and \<^verbatim>\<open>numpy\<close>
  calls are inverse on the campaign's schemas and on the record concerned, the worker that
  decodes the coordinator's \<^verbatim>\<open>READY\<close> reply (the three frames left after the address and
  the empty frame) holds the input record the coordinator stored for that run, and the
  coordinator that handles the worker's \<^verbatim>\<open>DATA\<close> message stores the output record the
  worker holds.
\<close>

theorem record_round_trip:
  "(conforms size_of fs rcd \<longrightarrow>
      decode_record size_of fs (encode_record size_of fs rcd) = Inr rcd
    \<and> length (encode_record size_of fs rcd) = sum_list (map (field_bytes size_of) fs))
   \<and> (table_size r n \<and> 0 \<le> run_id w \<and> run_id w < int n
       \<and> loads_input_descr L (json_dumps L (input_vars r)) = Inr (input_vars r)
       \<and> loads_output_descr L (json_dumps L (output_vars r)) = Inr (output_vars r)
       \<and> frombuffer L (input_vars r) (tobytes L (inputs r ! nat (run_id w)))
             = Inr [inputs r ! nat (run_id w)]
       \<and> zeros L (output_vars r) = Inr z \<longrightarrow>
      (let address = ''req_'' @ str_int (run_id w);
           r1 = snd (handle_msg L r address (request_msg L w ''READY''));
           reply = drop 2 (last (sent r1))
       in \<exists>w'. attempt L ''READY'' (Reply reply) tries w = Done (None, w')
               \<and> input_w w' = inputs r ! nat (run_id w) \<and> output_w w' = z))
   \<and> (table_size r n \<and> 0 \<le> run_id w \<and> run_id w < int n
       \<and> frombuffer L (output_vars r) (tobytes L (output_w w)) = Inr [output_w w] \<longrightarrow>
      (let address = ''req_'' @ str_int (run_id w);
           r2 = snd (handle_msg L r address (request_msg L w ''DATA''))
       in outputs r2 ! nat (run_id w) = output_w w))"
proof (intro conjI impI)
  assume "conforms size_of fs rcd"
  then show "decode_record size_of fs (encode_record size_of fs rcd) = Inr rcd"
    and "length (encode_record size_of fs rcd) = sum_list (map (field_bytes size_of) fs)"
    by (rule decode_encode, rule length_encode)
next
  let ?rid = "run_id w"
  let ?a = "''req_'' @ str_int ?rid"
  assume h: "table_size r n \<and> 0 \<le> ?rid \<and> ?rid < int n
       \<and> loads_input_descr L (json_dumps L (input_vars r)) = Inr (input_vars r)
       \<and> loads_output_descr L (json_dumps L (output_vars r)) = Inr (output_vars r)
       \<and> frombuffer L (input_vars r) (tobytes L (inputs r ! nat ?rid)) = Inr [inputs r ! nat ?rid]
       \<and> zeros L (output_vars r) = Inr z"
  then have ts: "table_size r n" and i: "py_index n ?rid = Some (nat ?rid)"
    by (simp_all add: py_index_nat)
  have p: "take 4 ?a = ''req_''" "py_int (drop 4 ?a) = Some ?rid"
    by (simp_all only: req_prefix py_int_str_int)
  have m: "request_msg L w ''READY'' = ''READY'' # []" by (simp add: request_msg_def)
  have s: "drop 2 (last (sent (snd (handle_msg L r ?a (request_msg L w ''READY''))))) =
             [json_dumps L (input_vars r), tobytes L (inputs r ! nat ?rid), json_dumps L (output_vars r)]"
    unfolding m handle_READY [OF p ts i] by simp
  have l1: "loads_input_descr L (json_dumps L (input_vars r)) = Inr (input_vars r)"
    and l2: "loads_output_descr L (json_dumps L (output_vars r)) = Inr (output_vars r)"
    and l3: "frombuffer L (input_vars r) (tobytes L (inputs r ! nat ?rid)) = Inr [inputs r ! nat ?rid]"
    and l4: "zeros L (output_vars r) = Inr z"
    using h by simp_all
  have d: "attempt L ''READY''
           (Reply [json_dumps L (input_vars r), tobytes L (inputs r ! nat ?rid),
                   json_dumps L (output_vars r)]) tries w =
           Done (None, wlog Debug (wlog Info
             ((wlog Debug (emit (Send (request_msg L w ''READY'')) w))
                \<lparr>input_w := inputs r ! nat ?rid, output_w := z\<rparr>)))"
    by (rule attempt_READY_decodes [OF l1 l2 l3 l4])
  show "let address = ?a;
           r1 = snd (handle_msg L r address (request_msg L w ''READY''));
           reply = drop 2 (last (sent r1))
       in \<exists>w'. attempt L ''READY'' (Reply reply) tries w = Done (None, w')
               \<and> input_w w' = inputs r ! nat ?rid \<and> output_w w' = z"
    unfolding Let_def s d by simp
next
  let ?rid = "run_id w"
  let ?a = "''req_'' @ str_int ?rid"
  assume h: "table_size r n \<and> 0 \<le> ?rid \<and> ?rid < int n
       \<and> frombuffer L (output_vars r) (tobytes L (output_w w)) = Inr [output_w w]"
  then have ts: "table_size r n" and i: "py_index n ?rid = Some (nat ?rid)"
    and f: "frombuffer L (output_vars r) (tobytes L (output_w w)) = Inr [output_w w]"
    by (simp_all add: py_index_nat)
  have l: "nat ?rid < length (outputs r)" using h by (auto simp: table_size_def)
  have p: "take 4 ?a = ''req_''" "py_int (drop 4 ?a) = Some ?rid"
    by (simp_all only: req_prefix py_int_str_int)
  have m: "request_msg L w ''DATA'' = ''DATA'' # tobytes L (output_w w) # []"
    by (simp add: request_msg_def)
  show "let address = ?a; r2 = snd (handle_msg L r address (request_msg L w ''DATA''))
       in outputs r2 ! nat ?rid = output_w w"
    unfolding Let_def m handle_DATA [OF p ts i f] using l by simp
qed

theorem record_round_trip_witness:
  "conforms demo_sizes demo_schema [[258, 513], [7]]
   \<and> encode_record demo_sizes demo_schema [[258, 513], [7]]
        = [CHR 0x02, CHR 0x01, CHR 0x01, CHR 0x02, CHR 0x07]
   \<and> decode_record demo_sizes demo_schema (encode_record demo_sizes demo_schema [[258, 513], [7]])
        = Inr [[258, 513], [7]]
   \<and> length (encode_record demo_sizes demo_schema [[258, 513], [7]]) = 5
   \<and> table_size demo_runner 3
   \<and> (\<exists>w'. attempt demo_numpy ''READY''
               (Reply (drop 2 (last (sent (snd (handle_msg demo_numpy demo_runner ''req_1'' [''READY''])))))) 0
               demo_worker = Done (None, w')
           \<and> input_w w' = ''bb'' \<and> output_w w' = ''00'')
   \<and> outputs (snd (handle_msg demo_numpy demo_runner ''req_1'' [''DATA'', ''zz''])) ! 1 = ''zz''"
proof -
  have c: "conforms demo_sizes demo_schema [[258, 513], [7]]"
    by (simp add: conforms_def demo_sizes_def demo_schema_def elems_of_def)
  have e: "encode_record demo_sizes demo_schema [[258, 513], [7]]
        = [CHR 0x02, CHR 0x01, CHR 0x01, CHR 0x02, CHR 0x07]"
    by code_simp
  have n: "sum_list (map (field_bytes demo_sizes) demo_schema) = 5"
    by (simp add: field_bytes_def demo_sizes_def demo_schema_def elems_of_def)
  have w: "run_id demo_worker = 1" "output_w demo_worker = ''zz''"
    "request_msg demo_numpy demo_worker ''READY'' = [''READY'']"
    "request_msg demo_numpy demo_worker ''DATA'' = [''DATA'', ''zz'']"
    by (simp_all add: demo_worker_def request_msg_def demo_numpy_def)
  have v: "inputs demo_runner ! nat 1 = ''bb''" "input_vars demo_runner = ''[[x]]''"
    "output_vars demo_runner = ''[[y]]''"
    by (simp_all add: demo_runner_def allocate_def)
  have l: "loads_input_descr demo_numpy (json_dumps demo_numpy ''[[x]]'') = Inr ''[[x]]''"
    "loads_output_descr demo_numpy (json_dumps demo_numpy ''[[y]]'') = Inr ''[[y]]''"
    "frombuffer demo_numpy ''[[x]]'' (tobytes demo_numpy ''bb'') = Inr [''bb'']"
    "zeros demo_numpy ''[[y]]'' = Inr ''00''"
    "frombuffer demo_numpy ''[[y]]'' (tobytes demo_numpy ''zz'') = Inr [''zz'']"
    by (simp_all add: demo_numpy_def)
  note t = record_round_trip [of demo_sizes demo_schema "[[258, 513], [7]]" demo_runner 3
        demo_worker demo_numpy "''00''" 0, unfolded Let_def w v l n str_int_1]
  from t c have A: "decode_record demo_sizes demo_schema
        (encode_record demo_sizes demo_schema [[258, 513], [7]]) = Inr [[258, 513], [7]]"
    and A': "length (encode_record demo_sizes demo_schema [[258, 513], [7]]) = 5"
    by blast+
  have r: "(0::int) \<le> 1" "(1::int) < int 3" by simp_all
  from t table_size_demo r l have B: "\<exists>w'. attempt demo_numpy ''READY''
               (Reply (drop 2 (last (sent (snd (handle_msg demo_numpy demo_runner ''req_1'' [''READY''])))))) 0
               demo_worker = Done (None, w')
           \<and> input_w w' = ''bb'' \<and> output_w w' = ''00''"
    by simp
  from t table_size_demo r l have C:
    "outputs (snd (handle_msg demo_numpy demo_runner ''req_1'' [''DATA'', ''zz''])) ! nat 1 = ''zz''"
    by simp
  from c A A' table_size_demo B C show ?thesis by (simp add: e)
qed

end
